theory Spec2Isabelle
  imports Complex_Main "HOL-Library.Sublist"
begin

text \<open>
  The repository holds two scripts. The export script loads a configuration, checks that
  the development server answers, drives a headless browser through the slides of a
  presentation with key presses and timed waits, and merges one screenshot per slide
  state into a PDF. The image-fix script scans asset directories for PNG files saved as
  base64 text and rewrites them as binary files.

  Both are embedded as functions over an explicit world. For the export script the world
  is the list of actions taken so far together with the merged document; reads are
  answered by an environment, and a call that throws is a result \<open>Inl\<close>. For the image-fix
  script the world is the file system.
\<close>

section \<open>Values of the JavaScript runtime\<close>

text \<open>
  What \<^verbatim>\<open>JSON.parse\<close> returns. Numbers are modelled as integers (slide counts,
  indices and millisecond durations); an object is the list of its properties.
\<close>

datatype json =
    JNull
  | JBool bool
  | JNum int
  | JStr string
  | JArr "json list"
  | JObj "(string \<times> json) list"

text \<open>
  Truthiness of the result of a property read; \<open>None\<close> is \<^verbatim>\<open>undefined\<close>.
  The falsy values are \<^verbatim>\<open>undefined\<close>, \<^verbatim>\<open>null\<close>, \<^verbatim>\<open>false\<close>, \<^verbatim>\<open>0\<close> and the empty string.
\<close>

fun truthy :: "json option \<Rightarrow> bool" where
  "truthy None = False"
| "truthy (Some JNull) = False"
| "truthy (Some (JBool b)) = b"
| "truthy (Some (JNum n)) = (n \<noteq> 0)"
| "truthy (Some (JStr s)) = (s \<noteq> [])"
| "truthy (Some (JArr xs)) = True"
| "truthy (Some (JObj kvs)) = True"

section \<open>Configuration and the outside world of the export script\<close>

datatype slideType = subSlide | step

record SlideConfig =
  slide_type :: slideType
  slide_max :: int

record Selectors =
  progressBar :: string
  mainContent :: string
  header :: string
  navigation :: string

record SpecialSlide =
  typewriterEffect :: "bool option"
  typewriterWaitTime :: "int option"

record ExportConfig =
  devServerUrl :: string
  totalSlides :: int
  slidesWithSubSlides :: "string \<rightharpoonup> SlideConfig"
  pdfFormat :: string
  landscape :: bool
  hideUIElementsFlag :: bool
  animationWaitTime :: int
  slideTransitionWaitTime :: int
  subSlideTransitionWaitTime :: int
  viewportWidth :: int
  viewportHeight :: int
  selectors :: Selectors
  specialSlides :: "(string \<rightharpoonup> SpecialSlide) option"

datatype key = ArrowRight | ArrowLeft | ArrowDown | ArrowUp

text \<open>The two callbacks given to \<^verbatim>\<open>page.evaluate\<close> and the two given to \<^verbatim>\<open>page.waitForFunction\<close>.\<close>

datatype script = ReadProgress string | HideUI Selectors

datatype poll = MainContentOpaque string | TypewriterDone

text \<open>
  A page of a PDF document holds an image, or is the blank page the PDF library gives a
  document without pages when it is saved.
\<close>

datatype page = ImagePage string | BlankPage

datatype content = Image string | Document "page list"

text \<open>
  The calls by which the script acts on the outside world: the HTTP probe, the file
  system writes, the browser and the timers. Console output is not modelled.
\<close>

datatype action =
    HttpGet string nat
  | MkDir string
  | Launch "string option" nat
  | NewPage
  | SetDefaultTimeout nat
  | SetDefaultNavigationTimeout nat
  | SetViewport int int
  | Goto string nat
  | WaitForSelector string bool nat
  | WaitForFunction poll int
  | Evaluate script
  | KeyPress key
  | Sleep int
  | Screenshot
  | WriteFile string content
  | CloseBrowser

datatype error =
    ProcessExit nat
  | Rejected action
  | TimeoutError
  | ReadError
  | SyntaxError
  | TypeError
  | InvalidConfiguration
  | InvalidUrl
  | EmbedError

text \<open>What becomes of the request sent by \<^verbatim>\<open>http.get\<close>.\<close>

datatype response = Responded nat | ErrorEvent | TimedOut | Threw

text \<open>
  The environment answers the script's reads. Answers that can change while the script
  runs depend on the actions taken so far.
  \<^item> \<open>existsSync\<close>, \<open>readFileSync\<close> (\<open>None\<close> when it throws) and \<open>JSON_parse\<close> (\<open>None\<close> on a
    syntax error) are the calls of the loader;
  \<^item> \<open>typed\<close> is the type assertion \<^verbatim>\<open>as ExportConfig\<close>: the parsed value read through the
    interface;
  \<^item> \<open>probe\<close> is what becomes of the HTTP request to a URL;
  \<^item> \<open>rejects\<close> says whether a call into the browser or the file system fails;
  \<^item> \<open>ariaValueNow\<close> is the attribute of the element a selector finds (\<open>None\<close> without
    element or attribute), \<open>parseInt\<close> the built-in (\<open>None\<close> is \<^verbatim>\<open>NaN\<close>);
  \<^item> \<open>terminalLines\<close> lists the line counts of the terminal element a poll sees within its
    timeout (\<open>None\<close> where there is none);
  \<^item> \<open>capture\<close> is the screenshot the page gives, \<open>embedPng\<close> whether the PDF library
    accepts an image.
\<close>

record env =
  cwd :: string
  platform :: string
  existsSync :: "string \<Rightarrow> bool"
  readFileSync :: "string \<Rightarrow> string option"
  JSON_parse :: "string \<Rightarrow> json option"
  typed :: "json \<Rightarrow> ExportConfig"
  probe :: "string \<Rightarrow> response"
  rejects :: "action list \<Rightarrow> action \<Rightarrow> bool"
  ariaValueNow :: "action list \<Rightarrow> string \<Rightarrow> string option"
  parseInt :: "string \<Rightarrow> int option"
  terminalLines :: "action list \<Rightarrow> nat option list"
  capture :: "action list \<Rightarrow> string"
  embedPng :: "string \<Rightarrow> bool"

record world =
  trace :: "action list"
  mergedPdf :: "page list"
  screenshotFiles :: "string list"
  totalPages :: int

type_synonym 'a io = "world \<Rightarrow> (error + 'a) \<times> world"

definition return_io :: "'a \<Rightarrow> 'a io" where
  "return_io x w = (Inr x, w)"

definition throw_io :: "error \<Rightarrow> 'a io" where
  "throw_io e w = (Inl e, w)"

definition bind_io :: "'a io \<Rightarrow> ('a \<Rightarrow> 'b io) \<Rightarrow> 'b io" where
  "bind_io m f w = (case m w of (Inl e, w') \<Rightarrow> (Inl e, w') | (Inr x, w') \<Rightarrow> f x w')"

definition then_io :: "'a io \<Rightarrow> 'b io \<Rightarrow> 'b io" where
  "then_io m n = bind_io m (\<lambda>_. n)"

text \<open>\<^verbatim>\<open>try { m } catch (e) { }\<close>: a thrown error is dropped; \<^verbatim>\<open>process.exit\<close> is not an error to catch.\<close>

definition catch_io :: "unit io \<Rightarrow> unit io" where
  "catch_io m w =
     (case m w of
        (Inl (ProcessExit c), w') \<Rightarrow> (Inl (ProcessExit c), w')
      | (Inl _, w') \<Rightarrow> (Inr (), w')
      | (Inr x, w') \<Rightarrow> (Inr x, w'))"

definition call :: "env \<Rightarrow> action \<Rightarrow> unit io" where
  "call E a w =
     (if rejects E (trace w) a then Inl (Rejected a) else Inr (),
      w\<lparr>trace := trace w @ [a]\<rparr>)"

definition emit :: "action \<Rightarrow> unit io" where
  "emit a w = (Inr (), w\<lparr>trace := trace w @ [a]\<rparr>)"

text \<open>
  \<^verbatim>\<open>path.join\<close> on POSIX: the arguments that are not empty are joined with a slash and
  the result is normalised. A path is split at its slashes into segments; \<open>normalizeString\<close>
  drops the empty segments and the segments \<^verbatim>\<open>.\<close>, and lets a segment \<^verbatim>\<open>..\<close> remove the
  segment before it, keeping it where a relative path climbs above its start. \<open>res\<close> holds
  the segments kept so far, the last one first.
\<close>

fun segments :: "string \<Rightarrow> string list" where
  "segments [] = [[]]"
| "segments (c # cs) =
     (if c = CHR ''/'' then [] # segments cs
      else (case segments cs of
              [] \<Rightarrow> [[c]]
            | seg # segs \<Rightarrow> (c # seg) # segs))"

fun normalizeString :: "bool \<Rightarrow> string list \<Rightarrow> string list \<Rightarrow> string list" where
  "normalizeString allowAboveRoot res [] = rev res"
| "normalizeString allowAboveRoot res (seg # segs) =
     (if seg = [] \<or> seg = ''.'' then normalizeString allowAboveRoot res segs
      else if seg = ''..'' then
        (case res of
           [] \<Rightarrow>
             if allowAboveRoot then normalizeString allowAboveRoot [seg] segs
             else normalizeString allowAboveRoot res segs
         | lastSegment # before \<Rightarrow>
             if lastSegment \<noteq> ''..'' then normalizeString allowAboveRoot before segs
             else if allowAboveRoot then normalizeString allowAboveRoot (seg # res) segs
             else normalizeString allowAboveRoot res segs)
      else normalizeString allowAboveRoot (seg # res) segs)"

fun joinSegments :: "string list \<Rightarrow> string" where
  "joinSegments [] = []"
| "joinSegments [seg] = seg"
| "joinSegments (seg # next # segs) = seg @ ''/'' @ joinSegments (next # segs)"

definition normalize :: "string \<Rightarrow> string" where
  "normalize path =
     (if path = [] then ''.''
      else
        (let isAbsolute = (hd path = CHR ''/'');
             trailingSeparator = (last path = CHR ''/'');
             normalized = joinSegments (normalizeString (\<not> isAbsolute) [] (segments path))
         in if normalized = [] then
              (if isAbsolute then ''/'' else if trailingSeparator then ''./'' else ''.'')
            else (if isAbsolute then ''/'' else []) @ normalized
                   @ (if trailingSeparator then ''/'' else [])))"

definition path_join :: "string \<Rightarrow> string \<Rightarrow> string" where
  "path_join a b =
     (let joined = (if a = [] then b else if b = [] then a else a @ ''/'' @ b)
      in if joined = [] then ''.'' else normalize joined)"

section \<open>The configuration loader\<close>

text \<open>
  A property read \<^verbatim>\<open>config.name\<close> for the two names the loader reads: it throws on
  \<^verbatim>\<open>null\<close>, finds the property of an object, and is \<^verbatim>\<open>undefined\<close> on every other value.
\<close>

fun getField :: "json \<Rightarrow> string \<Rightarrow> error + json option" where
  "getField JNull name = Inl TypeError"
| "getField (JObj kvs) name = Inr (map_of kvs name)"
| "getField v name = Inr None"

definition configPath :: "env \<Rightarrow> string" where
  "configPath E = path_join (cwd E) ''pdf-export.config.json''"

text \<open>The body of the \<^verbatim>\<open>try\<close> block of \<^verbatim>\<open>loadConfig\<close>.\<close>

definition loadConfig_try :: "env \<Rightarrow> error + json" where
  "loadConfig_try E =
     (case readFileSync E (configPath E) of
        None \<Rightarrow> Inl ReadError
      | Some configContent \<Rightarrow>
          (case JSON_parse E configContent of
             None \<Rightarrow> Inl SyntaxError
           | Some config \<Rightarrow>
               (case getField config ''devServerUrl'' of
                  Inl e \<Rightarrow> Inl e
                | Inr url \<Rightarrow>
                    if \<not> truthy url then Inl InvalidConfiguration
                    else (case getField config ''totalSlides'' of
                            Inl e \<Rightarrow> Inl e
                          | Inr n \<Rightarrow>
                              if \<not> truthy n then Inl InvalidConfiguration
                              else Inr config))))"

definition loadConfig :: "env \<Rightarrow> json io" where
  "loadConfig E =
     (if \<not> existsSync E (configPath E) then throw_io (ProcessExit 1)
      else (case loadConfig_try E of
              Inl e \<Rightarrow> throw_io (ProcessExit 1)
            | Inr config \<Rightarrow> return_io config))"

section \<open>Loops and number formatting\<close>

text \<open>\<^verbatim>\<open>for (let i = i0; i < n; i++) { body }\<close>; an error thrown by the body leaves the loop.\<close>

function for_loop :: "int \<Rightarrow> int \<Rightarrow> (int \<Rightarrow> unit io) \<Rightarrow> unit io" where
  "for_loop i n body w =
     (if i < n then
        (case body i w of
           (Inl e, w') \<Rightarrow> (Inl e, w')
         | (Inr u, w') \<Rightarrow> for_loop (i + 1) n body w')
      else (Inr (), w))"
  by pat_completeness auto
termination
  by (relation "measure (\<lambda>(i, n, body, w). nat (n - i))") auto

declare for_loop.simps [simp del]

definition digitChar :: "nat \<Rightarrow> char" where
  "digitChar d = ''0123456789'' ! d"

fun digits :: "nat \<Rightarrow> string" where
  "digits n = (if n < 10 then [digitChar n] else digits (n div 10) @ [digitChar (n mod 10)])"

declare digits.simps [simp del]

text \<open>\<^verbatim>\<open>Number.prototype.toString\<close> on an integer.\<close>

definition toString :: "int \<Rightarrow> string" where
  "toString i = (if i < 0 then CHR ''-'' # digits (nat (- i)) else digits (nat i))"

text \<open>\<^verbatim>\<open>a || b\<close> where \<open>a\<close> is an optional number: \<^verbatim>\<open>undefined\<close> and \<^verbatim>\<open>0\<close> are falsy.\<close>

fun orElse :: "int option \<Rightarrow> int \<Rightarrow> int" where
  "orElse None b = b"
| "orElse (Some a) b = (if a \<noteq> 0 then a else b)"

section \<open>Waiting and navigation\<close>

fun typewriterDone :: "nat option \<Rightarrow> bool" where
  "typewriterDone None = True"
| "typewriterDone (Some lines) = (lines > 20)"

text \<open>
  \<^verbatim>\<open>page.waitForFunction\<close> evaluates the callback in the page, on the states the page goes
  through until the timeout; it resolves when the callback returns true in one of them.
  The callback is sent to the page as its source text and no argument is passed with it.
  The callback of \<^verbatim>\<open>waitForAnimation\<close> reads \<^verbatim>\<open>config.selectors.mainContent\<close>, and
  \<^verbatim>\<open>config\<close> is a parameter of the function in the Node process, not a variable of the page:
  in the page the read raises an error before any element is looked at, the callback never
  returns true and the poll never resolves, whatever the page shows. The callback of the
  typewriter poll reads the document only. A poll that does not resolve ends with an
  error, the timeout or the error of its callback; \<open>TimeoutError\<close> stands for both, and
  every caller drops the error without looking at it.
\<close>

fun pollHolds :: "env \<Rightarrow> action list \<Rightarrow> poll \<Rightarrow> bool" where
  "pollHolds E tr (MainContentOpaque sel) = False"
| "pollHolds E tr TypewriterDone = list_ex typewriterDone (terminalLines E tr)"

definition waitForFunction :: "env \<Rightarrow> poll \<Rightarrow> int \<Rightarrow> unit io" where
  "waitForFunction E p timeout w =
     (if rejects E (trace w) (WaitForFunction p timeout) then Inl (Rejected (WaitForFunction p timeout))
      else if pollHolds E (trace w) p then Inr ()
      else Inl TimeoutError,
      w\<lparr>trace := trace w @ [WaitForFunction p timeout]\<rparr>)"

definition waitForAnimation :: "env \<Rightarrow> ExportConfig \<Rightarrow> int option \<Rightarrow> unit io" where
  "waitForAnimation E config delay =
     (let waitTime = orElse delay (animationWaitTime config) in
      then_io (emit (Sleep waitTime))
        (catch_io (waitForFunction E (MainContentOpaque (mainContent (selectors config))) 3000)))"

text \<open>
  The callback of \<^verbatim>\<open>navigateToSlide\<close>: \<^verbatim>\<open>ariaValueNow ? parseInt(ariaValueNow) - 1 : 0\<close>.
  The result \<open>None\<close> is \<^verbatim>\<open>NaN\<close>.
\<close>

definition currentSlideOf :: "env \<Rightarrow> action list \<Rightarrow> string \<Rightarrow> int option" where
  "currentSlideOf E tr selector =
     (case ariaValueNow E tr selector of
        None \<Rightarrow> Some 0
      | Some v \<Rightarrow> if v = [] then Some 0 else map_option (\<lambda>n. n - 1) (parseInt E v))"

definition evaluateProgress :: "env \<Rightarrow> string \<Rightarrow> int option io" where
  "evaluateProgress E selector w =
     (if rejects E (trace w) (Evaluate (ReadProgress selector))
      then Inl (Rejected (Evaluate (ReadProgress selector)))
      else Inr (currentSlideOf E (trace w) selector),
      w\<lparr>trace := trace w @ [Evaluate (ReadProgress selector)]\<rparr>)"

definition navigateToSlide :: "env \<Rightarrow> int \<Rightarrow> ExportConfig \<Rightarrow> unit io" where
  "navigateToSlide E slideIndex config =
     bind_io (evaluateProgress E (progressBar (selectors config))) (\<lambda>currentSlide.
       case currentSlide of
         None \<Rightarrow> waitForAnimation E config (Some 500)
       | Some current \<Rightarrow>
           (let steps = slideIndex - current in
            if steps > 0 then
              for_loop 0 steps (\<lambda>i.
                then_io (call E (KeyPress ArrowRight))
                  (waitForAnimation E config (Some (slideTransitionWaitTime config))))
            else if steps < 0 then
              for_loop 0 (abs steps) (\<lambda>i.
                then_io (call E (KeyPress ArrowLeft))
                  (waitForAnimation E config (Some (slideTransitionWaitTime config))))
            else waitForAnimation E config (Some 500)))"

datatype direction = down | up

definition navigateSubSlide :: "env \<Rightarrow> direction \<Rightarrow> ExportConfig \<Rightarrow> unit io" where
  "navigateSubSlide E dir config =
     (let key = (if dir = down then ArrowDown else ArrowUp) in
      then_io (call E (KeyPress key))
        (waitForAnimation E config (Some (subSlideTransitionWaitTime config))))"

definition hideUIElements :: "env \<Rightarrow> ExportConfig \<Rightarrow> unit io" where
  "hideUIElements E config =
     then_io (call E (Evaluate (HideUI (selectors config))))
       (waitForAnimation E config (Some 300))"

definition waitForSlideContent :: "env \<Rightarrow> int \<Rightarrow> ExportConfig \<Rightarrow> unit io" where
  "waitForSlideContent E slideIndex config =
     then_io (catch_io (call E (WaitForSelector (mainContent (selectors config)) True 5000)))
       (then_io
          (let specialSlide =
                 (case specialSlides config of None \<Rightarrow> None | Some m \<Rightarrow> m (toString slideIndex))
           in case specialSlide of
                None \<Rightarrow> return_io ()
              | Some special \<Rightarrow>
                  if typewriterEffect special = Some True then
                    (let waitTime = orElse (typewriterWaitTime special) 3000 in
                     then_io (catch_io (waitForFunction E TypewriterDone waitTime))
                       (emit (Sleep waitTime)))
                  else return_io ())
          (waitForAnimation E config (Some 1500)))"

definition screenshot :: "env \<Rightarrow> string io" where
  "screenshot E w =
     (if rejects E (trace w) Screenshot then Inl (Rejected Screenshot)
      else Inr (capture E (trace w)),
      w\<lparr>trace := trace w @ [Screenshot]\<rparr>)"

definition takeScreenshot :: "env \<Rightarrow> string \<Rightarrow> int \<Rightarrow> ExportConfig \<Rightarrow> string io" where
  "takeScreenshot E filename slideIndex config =
     then_io (call E (SetViewport (viewportWidth config) (viewportHeight config)))
       (then_io (waitForSlideContent E slideIndex config)
          (screenshot E))"

text \<open>A document of one page holding the image; \<^verbatim>\<open>embedPng\<close> throws on bytes that are no PNG.\<close>

definition convertImageToPDF :: "env \<Rightarrow> string \<Rightarrow> page list io" where
  "convertImageToPDF E imageBuffer =
     (if embedPng E imageBuffer then return_io [ImagePage imageBuffer] else throw_io EmbedError)"

definition checkDevServer :: "env \<Rightarrow> string \<Rightarrow> bool io" where
  "checkDevServer E url w =
     (case probe E url of
        Threw \<Rightarrow> Inl InvalidUrl
      | Responded statusCode \<Rightarrow> Inr (statusCode = 200)
      | ErrorEvent \<Rightarrow> Inr False
      | TimedOut \<Rightarrow> Inr False,
      w\<lparr>trace := trace w @ [HttpGet url 2000]\<rparr>)"

definition findChromeExecutable :: "env \<Rightarrow> string option" where
  "findChromeExecutable E =
     (if platform E = ''darwin'' then
        find (existsSync E)
          [''/Applications/Google Chrome.app/Contents/MacOS/Google Chrome'',
           ''/Applications/Chromium.app/Contents/MacOS/Chromium'']
      else if platform E = ''win32'' then
        find (existsSync E)
          [''C:'' @ [CHR 0x5C] @ ''Program Files'' @ [CHR 0x5C] @ ''Google'' @ [CHR 0x5C]
             @ ''Chrome'' @ [CHR 0x5C] @ ''Application'' @ [CHR 0x5C] @ ''chrome.exe'',
           ''C:'' @ [CHR 0x5C] @ ''Program Files (x86)'' @ [CHR 0x5C] @ ''Google'' @ [CHR 0x5C]
             @ ''Chrome'' @ [CHR 0x5C] @ ''Application'' @ [CHR 0x5C] @ ''chrome.exe'']
      else None)"

section \<open>The export orchestrator\<close>

definition OUTPUT_DIR :: "env \<Rightarrow> string" where
  "OUTPUT_DIR E = path_join (cwd E) ''exports''"

definition SCREENSHOTS_DIR :: "env \<Rightarrow> string" where
  "SCREENSHOTS_DIR E = path_join (OUTPUT_DIR E) ''screenshots''"

definition OUTPUT_FILE :: "env \<Rightarrow> string" where
  "OUTPUT_FILE E = path_join (OUTPUT_DIR E) ''presentation.pdf''"

definition typeName :: "slideType \<Rightarrow> string" where
  "typeName t = (if t = subSlide then ''subSlide'' else ''step'')"

definition subSlideFilename :: "int \<Rightarrow> slideType \<Rightarrow> int \<Rightarrow> string" where
  "subSlideFilename slideIndex t subIndex =
     ''slide-'' @ toString (slideIndex + 1) @ ''-'' @ typeName t @ ''-''
       @ toString (subIndex + (if t = step then 0 else 1)) @ ''.png''"

definition slideFilename :: "int \<Rightarrow> string" where
  "slideFilename slideIndex = ''slide-'' @ toString (slideIndex + 1) @ ''.png''"

definition pushScreenshotFile :: "string \<Rightarrow> unit io" where
  "pushScreenshotFile filepath w = (Inr (), w\<lparr>screenshotFiles := screenshotFiles w @ [filepath]\<rparr>)"

definition addPages :: "page list \<Rightarrow> unit io" where
  "addPages pages w = (Inr (), w\<lparr>mergedPdf := mergedPdf w @ pages\<rparr>)"

definition incrementTotalPages :: "unit io" where
  "incrementTotalPages w = (Inr (), w\<lparr>totalPages := totalPages w + 1\<rparr>)"

text \<open>
  Hide the UI, take the screenshot, write it, convert it and add its page to the merged
  document: the statements the source has once in the sub-slide loop and once for a
  slide without sub-slides.
\<close>

definition exportPage :: "env \<Rightarrow> ExportConfig \<Rightarrow> int \<Rightarrow> string \<Rightarrow> unit io" where
  "exportPage E config slideIndex filename =
     then_io (hideUIElements E config)
       (let filepath = path_join (SCREENSHOTS_DIR E) filename in
        bind_io (takeScreenshot E filename slideIndex config) (\<lambda>shot.
          then_io (call E (WriteFile filepath (Image shot)))
            (then_io (pushScreenshotFile filepath)
               (bind_io (convertImageToPDF E shot) (\<lambda>pdfDoc.
                  then_io (addPages pdfDoc) incrementTotalPages)))))"

text \<open>The loop over the sub-slides of one slide, \<^verbatim>\<open>subIndex <= endIndex\<close> on integers.\<close>

definition exportSubSlides :: "env \<Rightarrow> ExportConfig \<Rightarrow> int \<Rightarrow> slideType \<Rightarrow> int \<Rightarrow> int \<Rightarrow> unit io" where
  "exportSubSlides E config slideIndex t startIndex endIndex =
     for_loop startIndex (endIndex + 1) (\<lambda>subIndex.
       then_io (if subIndex > startIndex then navigateSubSlide E down config else return_io ())
         (exportPage E config slideIndex (subSlideFilename slideIndex t subIndex)))"

text \<open>The reset to the first sub-slide before the next main slide.\<close>

definition resetSubSlides :: "env \<Rightarrow> ExportConfig \<Rightarrow> slideType \<Rightarrow> int \<Rightarrow> unit io" where
  "resetSubSlides E config t endIndex =
     (if t = subSlide then for_loop 0 endIndex (\<lambda>i. navigateSubSlide E up config)
      else navigateSubSlide E down config)"

text \<open>The body of the loop over the slides.\<close>

definition exportSlide :: "env \<Rightarrow> ExportConfig \<Rightarrow> int \<Rightarrow> unit io" where
  "exportSlide E config slideIndex =
     then_io (navigateToSlide E slideIndex config)
       (case slidesWithSubSlides config (toString slideIndex) of
          Some subSlideConfig \<Rightarrow>
            (let t = slide_type subSlideConfig;
                 startIndex = (if t = subSlide then 0 else 1);
                 endIndex = slide_max subSlideConfig
             in then_io (exportSubSlides E config slideIndex t startIndex endIndex)
                  (resetSubSlides E config t endIndex))
        | None \<Rightarrow> exportPage E config slideIndex (slideFilename slideIndex))"

definition createMergedPdf :: "unit io" where
  "createMergedPdf w = (Inr (), w\<lparr>mergedPdf := [], screenshotFiles := [], totalPages := 0\<rparr>)"

text \<open>
  \<^verbatim>\<open>mergedPdf.save()\<close> is called without options, so that \<^verbatim>\<open>addDefaultPage\<close> is on: a
  document without pages is given one blank page before it is serialised.
\<close>

definition save :: "unit io" where
  "save w = (Inr (), w\<lparr>mergedPdf := (if mergedPdf w = [] then [BlankPage] else mergedPdf w)\<rparr>)"

text \<open>The two statements that save the merged document and write its bytes.\<close>

definition savePdf :: "env \<Rightarrow> unit io" where
  "savePdf E =
     then_io save (\<lambda>w. call E (WriteFile (OUTPUT_FILE E) (Document (mergedPdf w))) w)"

text \<open>The body of the \<^verbatim>\<open>try\<close> block of \<^verbatim>\<open>exportPresentationToPDF\<close>.\<close>

definition exportPresentationToPDF_try :: "env \<Rightarrow> ExportConfig \<Rightarrow> unit io" where
  "exportPresentationToPDF_try E config =
     then_io (call E (Goto (devServerUrl config) 30000))
       (then_io (catch_io (call E (WaitForSelector (progressBar (selectors config)) False 10000)))
          (then_io (waitForAnimation E config (Some 1000))
             (then_io createMergedPdf
                (then_io (for_loop 0 (totalSlides config) (exportSlide E config))
                   (savePdf E)))))"

text \<open>
  \<^verbatim>\<open>try { m } catch (error) { throw error } finally { c }\<close>: the cleanup runs after the
  body, returned or thrown, and an error of the cleanup replaces the body's result.
\<close>

definition finally_io :: "unit io \<Rightarrow> unit io \<Rightarrow> unit io" where
  "finally_io m c w =
     (case m w of
        (Inl (ProcessExit n), w') \<Rightarrow> (Inl (ProcessExit n), w')
      | (r, w') \<Rightarrow>
          (case c w' of
             (Inl e, w'') \<Rightarrow> (Inl e, w'')
           | (Inr u, w'') \<Rightarrow> (r, w'')))"

definition ensureDir :: "env \<Rightarrow> string \<Rightarrow> unit io" where
  "ensureDir E dir = (if \<not> existsSync E dir then call E (MkDir dir) else return_io ())"

definition exportPresentationToPDF :: "env \<Rightarrow> unit io" where
  "exportPresentationToPDF E =
     bind_io (loadConfig E) (\<lambda>parsed.
       let config = typed E parsed in
       bind_io (checkDevServer E (devServerUrl config)) (\<lambda>serverRunning.
         if \<not> serverRunning then throw_io (ProcessExit 1)
         else
           then_io (ensureDir E (OUTPUT_DIR E))
          (then_io (ensureDir E (SCREENSHOTS_DIR E))
          (then_io (call E (Launch (findChromeExecutable E) 60000))
          (then_io (call E NewPage)
          (then_io (emit (SetDefaultTimeout 60000))
          (then_io (emit (SetDefaultNavigationTimeout 60000))
          (then_io (call E (SetViewport (viewportWidth config) (viewportHeight config)))
          (finally_io (exportPresentationToPDF_try E config) (call E CloseBrowser))))))))))"

text \<open>
  The script run as the main module: exit code 0 when the export resolves, 1 when it
  rejects; a \<^verbatim>\<open>process.exit\<close> inside the export ends the process with its own code.
\<close>

definition runAsMain :: "env \<Rightarrow> world \<Rightarrow> nat \<times> world" where
  "runAsMain E w =
     (case exportPresentationToPDF E w of
        (Inl (ProcessExit c), w') \<Rightarrow> (c, w')
      | (Inl e, w') \<Rightarrow> (1, w')
      | (Inr u, w') \<Rightarrow> (0, w'))"

section \<open>The image-fix script\<close>

text \<open>
  The file system the script works on: a path holds a file with its bytes or a directory
  with the names of its entries.
\<close>

datatype node = File string | Dir "string list"

type_synonym fs = "string \<rightharpoonup> node"

definition fs_existsSync :: "fs \<Rightarrow> string \<Rightarrow> bool" where
  "fs_existsSync files p = (files p \<noteq> None)"

text \<open>Reading and writing throw (\<open>Inl\<close> with the message) where the path holds no file.\<close>

definition fs_readFileSync :: "fs \<Rightarrow> string \<Rightarrow> string + string" where
  "fs_readFileSync files p =
     (case files p of
        None \<Rightarrow> Inl ''ENOENT: no such file or directory''
      | Some (Dir names) \<Rightarrow> Inl ''EISDIR: illegal operation on a directory''
      | Some (File bytes) \<Rightarrow> Inr bytes)"

definition fs_writeFileSync :: "fs \<Rightarrow> string \<Rightarrow> string \<Rightarrow> string + fs" where
  "fs_writeFileSync files p bytes =
     (case files p of
        Some (Dir names) \<Rightarrow> Inl ''EISDIR: illegal operation on a directory''
      | _ \<Rightarrow> Inr (files(p \<mapsto> File bytes)))"

text \<open>
  A file read as UTF-8 is kept as its bytes. The white space of \<^verbatim>\<open>trim\<close> and of the regular-expression class \<open>s\<close>,
  each character in its UTF-8 encoding: tab, line feed, vertical tab, form feed, carriage
  return, space, U+00A0, U+1680, U+2000 to U+200A, U+2028, U+2029, U+202F, U+205F,
  U+3000 and U+FEFF.
\<close>

definition whiteSpace :: "string list" where
  "whiteSpace =
     [[CHR 0x09], [CHR 0x0A], [CHR 0x0B], [CHR 0x0C], [CHR 0x0D], [CHR 0x20],
      [CHR 0xC2, CHR 0xA0],
      [CHR 0xE1, CHR 0x9A, CHR 0x80],
      [CHR 0xE2, CHR 0x80, CHR 0x80], [CHR 0xE2, CHR 0x80, CHR 0x81],
      [CHR 0xE2, CHR 0x80, CHR 0x82], [CHR 0xE2, CHR 0x80, CHR 0x83],
      [CHR 0xE2, CHR 0x80, CHR 0x84], [CHR 0xE2, CHR 0x80, CHR 0x85],
      [CHR 0xE2, CHR 0x80, CHR 0x86], [CHR 0xE2, CHR 0x80, CHR 0x87],
      [CHR 0xE2, CHR 0x80, CHR 0x88], [CHR 0xE2, CHR 0x80, CHR 0x89],
      [CHR 0xE2, CHR 0x80, CHR 0x8A],
      [CHR 0xE2, CHR 0x80, CHR 0xA8], [CHR 0xE2, CHR 0x80, CHR 0xA9],
      [CHR 0xE2, CHR 0x80, CHR 0xAF],
      [CHR 0xE2, CHR 0x81, CHR 0x9F],
      [CHR 0xE3, CHR 0x80, CHR 0x80],
      [CHR 0xEF, CHR 0xBB, CHR 0xBF]]"

definition isWhiteSpace :: "string \<Rightarrow> bool" where
  "isWhiteSpace t = (t \<in> set whiteSpace)"

definition whiteSpacePrefix :: "string \<Rightarrow> string option" where
  "whiteSpacePrefix s = find (\<lambda>ws. prefix ws s) whiteSpace"

text \<open>The bytes split into white-space characters and single other bytes.\<close>

function jsChars :: "string \<Rightarrow> string list" where
  "jsChars s =
     (if s = [] then []
      else (case whiteSpacePrefix s of
              Some ws \<Rightarrow> ws # jsChars (drop (length ws) s)
            | None \<Rightarrow> [hd s] # jsChars (tl s)))"
  by pat_completeness auto
termination
proof (relation "measure length")
  show "wf (measure length)" by simp
next
  fix s ws :: string
  assume "s \<noteq> []" and "whiteSpacePrefix s = Some ws"
  then have "ws \<in> set whiteSpace"
    by (auto simp: whiteSpacePrefix_def find_Some_iff)
  then have "ws \<noteq> []"
    by (auto simp: whiteSpace_def)
  with \<open>s \<noteq> []\<close> show "(drop (length ws) s, s) \<in> measure length"
    by simp
next
  fix s :: string
  assume "s \<noteq> []"
  then show "(tl s, s) \<in> measure length"
    by (cases s) simp_all
qed

declare jsChars.simps [simp del]

definition trim :: "string \<Rightarrow> string" where
  "trim s = concat (rev (dropWhile isWhiteSpace (rev (dropWhile isWhiteSpace (jsChars s)))))"

definition removeWhiteSpace :: "string \<Rightarrow> string" where
  "removeWhiteSpace s = concat (filter (\<lambda>t. \<not> isWhiteSpace t) (jsChars s))"

definition isBase64Encoded :: "fs \<Rightarrow> string \<Rightarrow> bool" where
  "isBase64Encoded files filePath =
     (case fs_readFileSync files filePath of
        Inl e \<Rightarrow> False
      | Inr content \<Rightarrow> prefix ''iVBORw0KGgo'' (trim content))"

text \<open>
  \<^verbatim>\<open>Buffer.from(s, 'base64')\<close> is the parameter \<open>fromBase64\<close>, so that every result
  holds for whatever the decoder returns; \<open>Inl\<close> is the message of an error it throws.
\<close>

definition decodeBase64ToBuffer :: "(string \<Rightarrow> string + string) \<Rightarrow> string \<Rightarrow> string + string" where
  "decodeBase64ToBuffer fromBase64 base64String =
     (let cleanBase64 = removeWhiteSpace (trim base64String) in
      case fromBase64 cleanBase64 of
        Inl message \<Rightarrow> Inl (''Failed to decode base64: '' @ message)
      | Inr buffer \<Rightarrow> Inr buffer)"

definition pngMagicBytes :: string where
  "pngMagicBytes = [CHR 0x89, CHR 0x50, CHR 0x4E, CHR 0x47, CHR 0x0D, CHR 0x0A, CHR 0x1A, CHR 0x0A]"

datatype result = Processed nat | NotProcessed string

definition processFile :: "(string \<Rightarrow> string + string) \<Rightarrow> fs \<Rightarrow> string \<Rightarrow> fs \<times> result" where
  "processFile fromBase64 files filePath =
     (if \<not> isBase64Encoded files filePath then (files, NotProcessed ''Not base64-encoded'')
      else (case fs_readFileSync files filePath of
              Inl message \<Rightarrow> (files, NotProcessed message)
            | Inr base64Content \<Rightarrow>
                (case decodeBase64ToBuffer fromBase64 base64Content of
                   Inl message \<Rightarrow> (files, NotProcessed message)
                 | Inr binaryBuffer \<Rightarrow>
                     if take 8 binaryBuffer \<noteq> pngMagicBytes
                     then (files, NotProcessed ''Decoded content is not a valid PNG'')
                     else (case fs_writeFileSync files filePath binaryBuffer of
                             Inl message \<Rightarrow> (files, NotProcessed message)
                           | Inr files' \<Rightarrow> (files', Processed (length binaryBuffer))))))"

definition isFile :: "fs \<Rightarrow> string \<Rightarrow> bool" where
  "isFile files p = (case files p of Some (File bytes) \<Rightarrow> True | _ \<Rightarrow> False)"

text \<open>\<^verbatim>\<open>readdirSync\<close> throws on a path that holds a file.\<close>

definition findPngFiles :: "fs \<Rightarrow> string \<Rightarrow> string + string list" where
  "findPngFiles files dir =
     (if \<not> fs_existsSync files dir then Inr []
      else (case files dir of
              Some (Dir names) \<Rightarrow>
                Inr (map (path_join dir)
                       (filter (\<lambda>name. isFile files (path_join dir name) \<and> suffix ''.png'' name) names))
            | _ \<Rightarrow> Inl ''ENOTDIR: not a directory''))"

definition ASSET_DIRS :: "string list" where
  "ASSET_DIRS = [''public/assets'', ''src/assets'', ''build/assets'']"

record counters =
  totalProcessed :: nat
  totalSkipped :: nat
  totalErrors :: nat

fun processFiles :: "(string \<Rightarrow> string + string) \<Rightarrow> string list \<Rightarrow> fs \<times> counters \<Rightarrow> fs \<times> counters" where
  "processFiles fromBase64 [] st = st"
| "processFiles fromBase64 (file # rest) (files, c) =
     (case processFile fromBase64 files file of
        (files', Processed n) \<Rightarrow>
          processFiles fromBase64 rest (files', c\<lparr>totalProcessed := totalProcessed c + 1\<rparr>)
      | (files', NotProcessed reason) \<Rightarrow>
          if reason = ''Not base64-encoded''
          then processFiles fromBase64 rest (files', c\<lparr>totalSkipped := totalSkipped c + 1\<rparr>)
          else processFiles fromBase64 rest (files', c\<lparr>totalErrors := totalErrors c + 1\<rparr>))"

text \<open>The loop over the asset directories; \<open>Some\<close> is an error no handler catches.\<close>

fun scanDirs ::
  "(string \<Rightarrow> string + string) \<Rightarrow> string \<Rightarrow> string list \<Rightarrow> fs \<times> counters \<Rightarrow> string option \<times> fs \<times> counters" where
  "scanDirs fromBase64 projectRoot [] st = (None, st)"
| "scanDirs fromBase64 projectRoot (dir # rest) (files, c) =
     (let fullDirPath = path_join projectRoot dir in
      if \<not> fs_existsSync files fullDirPath then scanDirs fromBase64 projectRoot rest (files, c)
      else (case findPngFiles files fullDirPath of
              Inl message \<Rightarrow> (Some message, files, c)
            | Inr pngs \<Rightarrow> scanDirs fromBase64 projectRoot rest (processFiles fromBase64 pngs (files, c))))"

datatype outcome = Exit nat | Uncaught string

definition main :: "(string \<Rightarrow> string + string) \<Rightarrow> string \<Rightarrow> fs \<Rightarrow> fs \<times> counters \<times> outcome" where
  "main fromBase64 PROJECT_ROOT files =
     (case scanDirs fromBase64 PROJECT_ROOT ASSET_DIRS
             (files, \<lparr>totalProcessed = 0, totalSkipped = 0, totalErrors = 0\<rparr>) of
        (Some message, files', c) \<Rightarrow> (files', c, Uncaught message)
      | (None, files', c) \<Rightarrow>
          (files', c, if totalProcessed c > 0 then Exit 0 else Exit 0))"

text \<open>
  The exit code of the process: the argument of \<^verbatim>\<open>process.exit\<close>, and 1 when an error that no
  handler catches ends the process.
\<close>

fun exitCode :: "outcome \<Rightarrow> nat" where
  "exitCode (Exit code) = code"
| "exitCode (Uncaught message) = 1"

section \<open>Properties of computations\<close>

fun keyOf :: "action \<Rightarrow> key list" where
  "keyOf (KeyPress k) = [k]"
| "keyOf a = []"

definition keyPresses :: "world \<Rightarrow> key list" where
  "keyPresses w = concat (map keyOf (trace w))"

text \<open>A computation that returns has appended \<open>xs\<close> to the list \<open>f\<close> reads from the world.\<close>

definition adds :: "(world \<Rightarrow> 'a list) \<Rightarrow> 'a list \<Rightarrow> 'b io \<Rightarrow> bool" where
  "adds f xs m = (\<forall>w r w'. m w = (Inr r, w') \<longrightarrow> f w' = f w @ xs)"

text \<open>The same for a computation that returns or throws.\<close>

definition always_adds :: "(world \<Rightarrow> 'a list) \<Rightarrow> 'a list \<Rightarrow> 'b io \<Rightarrow> bool" where
  "always_adds f xs m = (\<forall>w r w'. m w = (r, w') \<longrightarrow> f w' = f w @ xs)"

text \<open>A computation whose only effect is the action \<open>a\<close>.\<close>

definition performs :: "action \<Rightarrow> 'b io \<Rightarrow> bool" where
  "performs a m = (\<forall>w r w'. m w = (r, w') \<longrightarrow> w' = w\<lparr>trace := trace w @ [a]\<rparr>)"

definition pages :: "world \<Rightarrow> unit list" where
  "pages w = map (\<lambda>page. ()) (mergedPdf w)"

text \<open>What \<^verbatim>\<open>waitForAnimation\<close> does to the outside world.\<close>

definition waitActions :: "ExportConfig \<Rightarrow> int option \<Rightarrow> action list" where
  "waitActions config delay =
     [Sleep (orElse delay (animationWaitTime config)),
      WaitForFunction (MainContentOpaque (mainContent (selectors config))) 3000]"

definition succeeds :: "'b io \<Rightarrow> bool" where
  "succeeds m = (\<forall>w. \<exists>r w'. m w = (Inr r, w'))"

text \<open>The computations of a list run in order; an error thrown by one ends the run.\<close>

fun sequence_io :: "unit io list \<Rightarrow> unit io" where
  "sequence_io [] = return_io ()"
| "sequence_io (m # ms) = then_io m (sequence_io ms)"

section \<open>A concrete configuration and environment\<close>

definition exampleSelectors :: Selectors where
  "exampleSelectors =
     \<lparr>progressBar = ''[role=progressbar]'', mainContent = ''main'',
      header = ''header'', navigation = ''nav''\<rparr>"

definition exampleConfig :: ExportConfig where
  "exampleConfig =
     \<lparr>devServerUrl = ''http://localhost:3000'',
      totalSlides = 3,
      slidesWithSubSlides = [''1'' \<mapsto> \<lparr>slide_type = subSlide, slide_max = 2\<rparr>],
      pdfFormat = ''A4'', landscape = True, hideUIElementsFlag = True,
      animationWaitTime = 2000, slideTransitionWaitTime = 1000,
      subSlideTransitionWaitTime = 2000,
      viewportWidth = 1920, viewportHeight = 1080,
      selectors = exampleSelectors,
      specialSlides = None\<rparr>"

text \<open>The content of a configuration file, parsed.\<close>

definition exampleJson :: json where
  "exampleJson =
     JObj [(''devServerUrl'', JStr ''http://localhost:3000''),
           (''totalSlides'', JNum 3),
           (''slidesWithSubSlides'',
              JObj [(''1'', JObj [(''type'', JStr ''subSlide''), (''max'', JNum 2)])]),
           (''pdfFormat'', JStr ''A4''),
           (''landscape'', JBool True),
           (''hideUIElements'', JBool True),
           (''animationWaitTime'', JNum 2000),
           (''slideTransitionWaitTime'', JNum 1000),
           (''subSlideTransitionWaitTime'', JNum 2000),
           (''viewport'', JObj [(''width'', JNum 1920), (''height'', JNum 1080)]),
           (''selectors'',
              JObj [(''progressBar'', JStr ''[role=progressbar]''),
                    (''mainContent'', JStr ''main''),
                    (''header'', JStr ''header''),
                    (''navigation'', JStr ''nav'')])]"

text \<open>
  A parsed value read through the interface \<^verbatim>\<open>ExportConfig\<close>: the configuration whose
  fields are the properties of the value, \<open>None\<close> for a value that lacks a property of the
  interface or holds one of another type. \<open>property v name\<close> is the property of an object.
\<close>

fun property :: "json \<Rightarrow> string \<Rightarrow> json option" where
  "property (JObj kvs) name = map_of kvs name"
| "property v name = None"

fun asString :: "json option \<Rightarrow> string option" where
  "asString (Some (JStr s)) = Some s"
| "asString v = None"

fun asNumber :: "json option \<Rightarrow> int option" where
  "asNumber (Some (JNum n)) = Some n"
| "asNumber v = None"

fun asBoolean :: "json option \<Rightarrow> bool option" where
  "asBoolean (Some (JBool b)) = Some b"
| "asBoolean v = None"

text \<open>An optional property: absent, or of the type asked for.\<close>

definition optional :: "(json option \<Rightarrow> 'a option) \<Rightarrow> json option \<Rightarrow> 'a option option" where
  "optional as v = (if v = None then Some None else map_option Some (as v))"

text \<open>A \<^verbatim>\<open>Record<string, T>\<close>: an object whose properties all read as a \<open>T\<close>.\<close>

fun asRecord :: "(json \<Rightarrow> 'a option) \<Rightarrow> json option \<Rightarrow> (string \<rightharpoonup> 'a) option" where
  "asRecord rd (Some (JObj kvs)) =
     (if list_all (\<lambda>kv. rd (snd kv) \<noteq> None) kvs
      then Some (\<lambda>k. Option.bind (map_of kvs k) rd)
      else None)"
| "asRecord rd v = None"

definition readSlideConfig :: "json \<Rightarrow> SlideConfig option" where
  "readSlideConfig v =
     Option.bind (asString (property v ''type'')) (\<lambda>t.
     Option.bind (asNumber (property v ''max'')) (\<lambda>m.
       if t = ''subSlide'' then Some \<lparr>slide_type = subSlide, slide_max = m\<rparr>
       else if t = ''step'' then Some \<lparr>slide_type = step, slide_max = m\<rparr>
       else None))"

definition readSpecialSlide :: "json \<Rightarrow> SpecialSlide option" where
  "readSpecialSlide v =
     (case v of
        JObj kvs \<Rightarrow>
          Option.bind (optional asBoolean (property v ''typewriterEffect'')) (\<lambda>effect.
          Option.bind (optional asNumber (property v ''typewriterWaitTime'')) (\<lambda>waitTime.
            Some \<lparr>typewriterEffect = effect, typewriterWaitTime = waitTime\<rparr>))
      | _ \<Rightarrow> None)"

definition readSelectors :: "json option \<Rightarrow> Selectors option" where
  "readSelectors v =
     (case v of
        Some s \<Rightarrow>
          Option.bind (asString (property s ''progressBar'')) (\<lambda>bar.
          Option.bind (asString (property s ''mainContent'')) (\<lambda>content.
          Option.bind (asString (property s ''header'')) (\<lambda>head.
          Option.bind (asString (property s ''navigation'')) (\<lambda>nav.
            Some \<lparr>progressBar = bar, mainContent = content, header = head, navigation = nav\<rparr>))))
      | None \<Rightarrow> None)"

definition readConfig :: "json \<Rightarrow> ExportConfig option" where
  "readConfig v =
     Option.bind (asString (property v ''devServerUrl'')) (\<lambda>url.
     Option.bind (asNumber (property v ''totalSlides'')) (\<lambda>total.
     Option.bind (asRecord readSlideConfig (property v ''slidesWithSubSlides'')) (\<lambda>subSlides.
     Option.bind (asString (property v ''pdfFormat'')) (\<lambda>format.
     Option.bind (asBoolean (property v ''landscape'')) (\<lambda>land.
     Option.bind (asBoolean (property v ''hideUIElements'')) (\<lambda>hide.
     Option.bind (asNumber (property v ''animationWaitTime'')) (\<lambda>animationWait.
     Option.bind (asNumber (property v ''slideTransitionWaitTime'')) (\<lambda>slideWait.
     Option.bind (asNumber (property v ''subSlideTransitionWaitTime'')) (\<lambda>subSlideWait.
     Option.bind (property v ''viewport'') (\<lambda>viewport.
     Option.bind (asNumber (property viewport ''width'')) (\<lambda>width.
     Option.bind (asNumber (property viewport ''height'')) (\<lambda>height.
     Option.bind (readSelectors (property v ''selectors'')) (\<lambda>sels.
     Option.bind (optional (asRecord readSpecialSlide) (property v ''specialSlides'')) (\<lambda>special.
       Some \<lparr>devServerUrl = url, totalSlides = total, slidesWithSubSlides = subSlides,
             pdfFormat = format, landscape = land, hideUIElementsFlag = hide,
             animationWaitTime = animationWait, slideTransitionWaitTime = slideWait,
             subSlideTransitionWaitTime = subSlideWait,
             viewportWidth = width, viewportHeight = height,
             selectors = sels, specialSlides = special\<rparr>))))))))))))))"

text \<open>
  The page of the example moves one slide forward on ArrowRight and one back on ArrowLeft
  and shows the one-based slide number in its progress bar.
\<close>

definition exampleEnv :: "json option \<Rightarrow> response \<Rightarrow> env" where
  "exampleEnv parsed answer =
     \<lparr>cwd = ''/project'', platform = ''linux'',
      existsSync = (\<lambda>p. p = ''/project/pdf-export.config.json''),
      readFileSync = (\<lambda>p. if p = ''/project/pdf-export.config.json'' then Some ''{}'' else None),
      JSON_parse = (\<lambda>s. parsed),
      typed = (\<lambda>j. the (readConfig j)),
      probe = (\<lambda>u. answer),
      rejects = (\<lambda>tr a. False),
      ariaValueNow = (\<lambda>tr sel.
         Some (toString (1 + int (count_list tr (KeyPress ArrowRight))
                           - int (count_list tr (KeyPress ArrowLeft))))),
      parseInt = map_of [(''1'', 1), (''2'', 2), (''3'', 3), (''4'', 4), (''5'', 5), (''6'', 6)],
      terminalLines = (\<lambda>tr. []),
      capture = (\<lambda>tr. ''png''),
      embedPng = (\<lambda>b. True)\<rparr>"

definition world0 :: world where
  "world0 = \<lparr>trace = [], mergedPdf = [], screenshotFiles = [], totalPages = 0\<rparr>"

section \<open>The page count of the specification\<close>

text \<open>
  A configuration is well formed when its total slide count is a positive integer and the
  range of every sub-slide entry of a slide of the presentation holds a state: \<open>[0, max]\<close>
  with \<open>0 \<le> max\<close> for a sub-slide entry, \<open>[1, max]\<close> with \<open>1 \<le> max\<close> for a step entry.
\<close>

definition wellFormed :: "ExportConfig \<Rightarrow> bool" where
  "wellFormed config =
     (0 < totalSlides config
      \<and> list_all (\<lambda>i. case slidesWithSubSlides config (toString i) of
                        None \<Rightarrow> True
                      | Some sc \<Rightarrow> (if slide_type sc = subSlide then 0 else 1) \<le> slide_max sc)
          [0..totalSlides config - 1])"

text \<open>
  The number of pages the specification asks for: over the slides \<open>0\<close> to
  \<open>totalSlides - 1\<close>, \<open>max + 1\<close> for a sub-slide entry, \<open>max\<close> for a step entry and 1 for a
  slide without an entry.
\<close>

definition spec_pageCount :: "ExportConfig \<Rightarrow> int" where
  "spec_pageCount config =
     (\<Sum>i\<leftarrow>[0..totalSlides config - 1].
        case slidesWithSubSlides config (toString i) of
          None \<Rightarrow> 1
        | Some sc \<Rightarrow> if slide_type sc = subSlide then slide_max sc + 1 else slide_max sc)"

text \<open>The number of pages one pass of the slide loop adds, read off the loop bounds.\<close>

definition slidePages :: "ExportConfig \<Rightarrow> int \<Rightarrow> nat" where
  "slidePages config slideIndex =
     (case slidesWithSubSlides config (toString slideIndex) of
        None \<Rightarrow> 1
      | Some sc \<Rightarrow> nat (slide_max sc + 1 - (if slide_type sc = subSlide then 0 else 1)))"

section \<open>A concrete asset directory\<close>

text \<open>
  One asset directory with a file of base64 text, a binary PNG and a text file; the other
  asset directories are missing.
\<close>

definition exampleFiles :: fs where
  "exampleFiles =
     [''/site/public/assets'' \<mapsto> Dir [''a.png'', ''b.png'', ''notes.txt''],
      ''/site/public/assets/a.png'' \<mapsto> File ''iVBORw0KGgoAAAANSUhEUg=='',
      ''/site/public/assets/b.png'' \<mapsto> File (pngMagicBytes @ ''IHDR''),
      ''/site/public/assets/notes.txt'' \<mapsto> File ''iVBORw0KGgo'']"

text \<open>Two stand-ins for the decoder: one returns a PNG, one returns bytes that are none.\<close>

definition decodesToPng :: "string \<Rightarrow> string + string" where
  "decodesToPng s = Inr (pngMagicBytes @ ''IHDR'')"

definition decodesToOther :: "string \<Rightarrow> string + string" where
  "decodesToOther s = Inr ''GIF89a''"

section \<open>The counts of the image-fix script\<close>

text \<open>
  The PNG files of the directories of a list, as the file system has them, in the order of
  the scan.
\<close>

definition scannedFiles :: "string \<Rightarrow> string list \<Rightarrow> fs \<Rightarrow> string list" where
  "scannedFiles projectRoot dirs files =
     concat (map (\<lambda>dir. case findPngFiles files (path_join projectRoot dir) of
                           Inl message \<Rightarrow> []
                         | Inr pngs \<Rightarrow> pngs) dirs)"

text \<open>The results of processing the files of a list one after the other.\<close>

fun fileResults :: "(string \<Rightarrow> string + string) \<Rightarrow> string list \<Rightarrow> fs \<Rightarrow> result list" where
  "fileResults fromBase64 [] files = []"
| "fileResults fromBase64 (file # rest) files =
     snd (processFile fromBase64 files file)
       # fileResults fromBase64 rest (fst (processFile fromBase64 files file))"

text \<open>A file is decoded, skipped as not base64-encoded, or has failed.\<close>

fun decoded :: "result \<Rightarrow> bool" where
  "decoded (Processed n) = True"
| "decoded (NotProcessed reason) = False"

fun skipped :: "result \<Rightarrow> bool" where
  "skipped (Processed n) = False"
| "skipped (NotProcessed reason) = (reason = ''Not base64-encoded'')"

fun failed :: "result \<Rightarrow> bool" where
  "failed (Processed n) = False"
| "failed (NotProcessed reason) = (reason \<noteq> ''Not base64-encoded'')"

definition tally :: "result list \<Rightarrow> counters" where
  "tally results =
     \<lparr>totalProcessed = length (filter decoded results),
      totalSkipped = length (filter skipped results),
      totalErrors = length (filter failed results)\<rparr>"

text \<open>A project whose first asset path holds a regular file.\<close>

definition assetsFile :: fs where
  "assetsFile = [''/site/public/assets'' \<mapsto> File ''assets'']"

section \<open>The configuration loader: results\<close>

text \<open>The path of the configuration file in the example environment.\<close>

text \<open>The example configuration is the example file read through the interface.\<close>

lemma readConfig_exampleJson: "readConfig exampleJson = Some exampleConfig"
proof -
  have "(\<lambda>k. Option.bind (map_of [(''1'', JObj [(''type'', JStr ''subSlide''), (''max'', JNum 2)])] k)
               readSlideConfig)
        = [''1'' \<mapsto> \<lparr>slide_type = subSlide, slide_max = 2\<rparr>]"
    by (rule ext) (simp add: readSlideConfig_def)
  then show ?thesis
    by (simp add: readConfig_def exampleJson_def exampleConfig_def exampleSelectors_def
        readSelectors_def readSlideConfig_def optional_def)
qed

lemma path_join_project:
  "path_join ''/project'' ''pdf-export.config.json'' = ''/project/pdf-export.config.json''"
  by (simp add: path_join_def normalize_def)

lemma loadConfig_unfold:
  "loadConfig E w =
     (if existsSync E (configPath E) then
        (case loadConfig_try E of Inl e \<Rightarrow> (Inl (ProcessExit 1), w) | Inr config \<Rightarrow> (Inr config, w))
      else (Inl (ProcessExit 1), w))"
  by (simp add: loadConfig_def throw_io_def return_io_def split: sum.splits)

text \<open>
  C7. The loader ends the process with exit code 1 when the configuration file is absent,
  when its text does not parse, and when the parsed object lacks the target URL or the
  slide count. When both fields are present and truthy it returns the parsed object as it
  is, whatever the sub-slide mapping holds, and the world is unchanged. It has no other
  outcome: a returned value is the parse of the file's text and has both fields, and
  every failure is exit code 1 with the world unchanged.
\<close>

theorem loadConfig_contract:
  "(\<not> existsSync E (configPath E) \<longrightarrow> loadConfig E w = (Inl (ProcessExit 1), w))
   \<and> (existsSync E (configPath E) \<and> readFileSync E (configPath E) = Some text
        \<and> JSON_parse E text = None
      \<longrightarrow> loadConfig E w = (Inl (ProcessExit 1), w))
   \<and> (existsSync E (configPath E) \<and> readFileSync E (configPath E) = Some text
        \<and> JSON_parse E text = Some (JObj kvs)
        \<and> (map_of kvs ''devServerUrl'' = None \<or> map_of kvs ''totalSlides'' = None)
      \<longrightarrow> loadConfig E w = (Inl (ProcessExit 1), w))
   \<and> (existsSync E (configPath E) \<and> readFileSync E (configPath E) = Some text
        \<and> JSON_parse E text = Some (JObj kvs)
        \<and> truthy (map_of kvs ''devServerUrl'') \<and> truthy (map_of kvs ''totalSlides'')
      \<longrightarrow> loadConfig E w = (Inr (JObj kvs), w))
   \<and> (\<forall>parsed w'. loadConfig E w = (Inr parsed, w')
      \<longrightarrow> w' = w \<and> (\<exists>content. readFileSync E (configPath E) = Some content
                          \<and> JSON_parse E content = Some parsed)
          \<and> (\<exists>url n. getField parsed ''devServerUrl'' = Inr url \<and> truthy url
                     \<and> getField parsed ''totalSlides'' = Inr n \<and> truthy n))
   \<and> (\<forall>e w'. loadConfig E w = (Inl e, w') \<longrightarrow> e = ProcessExit 1 \<and> w' = w)"
proof (intro conjI impI allI)
  assume "\<not> existsSync E (configPath E)"
  then show "loadConfig E w = (Inl (ProcessExit 1), w)"
    by (simp add: loadConfig_unfold)
next
  assume "existsSync E (configPath E) \<and> readFileSync E (configPath E) = Some text
    \<and> JSON_parse E text = None"
  then show "loadConfig E w = (Inl (ProcessExit 1), w)"
    by (simp add: loadConfig_unfold loadConfig_try_def)
next
  assume "existsSync E (configPath E) \<and> readFileSync E (configPath E) = Some text
    \<and> JSON_parse E text = Some (JObj kvs)
    \<and> (map_of kvs ''devServerUrl'' = None \<or> map_of kvs ''totalSlides'' = None)"
  then show "loadConfig E w = (Inl (ProcessExit 1), w)"
    by (auto simp: loadConfig_unfold loadConfig_try_def)
next
  assume "existsSync E (configPath E) \<and> readFileSync E (configPath E) = Some text
    \<and> JSON_parse E text = Some (JObj kvs)
    \<and> truthy (map_of kvs ''devServerUrl'') \<and> truthy (map_of kvs ''totalSlides'')"
  then show "loadConfig E w = (Inr (JObj kvs), w)"
    by (simp add: loadConfig_unfold loadConfig_try_def)
next
  fix parsed w'
  assume "loadConfig E w = (Inr parsed, w')"
  then show "w' = w"
    by (auto simp: loadConfig_unfold split: if_splits sum.splits)
next
  fix parsed w'
  assume "loadConfig E w = (Inr parsed, w')"
  then show "\<exists>content. readFileSync E (configPath E) = Some content
      \<and> JSON_parse E content = Some parsed"
    by (auto simp: loadConfig_unfold loadConfig_try_def split: if_splits sum.splits option.splits)
next
  fix parsed w'
  assume "loadConfig E w = (Inr parsed, w')"
  then show "\<exists>url n. getField parsed ''devServerUrl'' = Inr url \<and> truthy url
      \<and> getField parsed ''totalSlides'' = Inr n \<and> truthy n"
    by (auto simp: loadConfig_unfold loadConfig_try_def split: if_splits sum.splits option.splits)
next
  fix e w'
  assume "loadConfig E w = (Inl e, w')"
  then show "e = ProcessExit 1"
    by (auto simp: loadConfig_unfold split: if_splits sum.splits)
next
  fix e w'
  assume "loadConfig E w = (Inl e, w')"
  then show "w' = w"
    by (auto simp: loadConfig_unfold split: if_splits sum.splits)
qed

theorem loadConfig_contract_witness:
  "loadConfig ((exampleEnv None (Responded 200))\<lparr>existsSync := (\<lambda>p. False)\<rparr>) world0
     = (Inl (ProcessExit 1), world0)
   \<and> loadConfig (exampleEnv None (Responded 200)) world0 = (Inl (ProcessExit 1), world0)
   \<and> loadConfig (exampleEnv (Some (JObj [(''devServerUrl'', JStr ''http://localhost:3000'')]))
        (Responded 200)) world0 = (Inl (ProcessExit 1), world0)
   \<and> loadConfig
        (exampleEnv
           (Some (JObj [(''devServerUrl'', JStr ''http://localhost:3000''),
                        (''totalSlides'', JNum 3),
                        (''slidesWithSubSlides'',
                           JObj [(''7'', JObj [(''type'', JStr ''step''), (''max'', JNum (- 4))])])]))
           (Responded 200)) world0
     = (Inr (JObj [(''devServerUrl'', JStr ''http://localhost:3000''),
                   (''totalSlides'', JNum 3),
                   (''slidesWithSubSlides'',
                      JObj [(''7'', JObj [(''type'', JStr ''step''), (''max'', JNum (- 4))])])]),
        world0)"
proof (intro conjI)
  show "loadConfig ((exampleEnv None (Responded 200))\<lparr>existsSync := (\<lambda>p. False)\<rparr>) world0
     = (Inl (ProcessExit 1), world0)"
    using loadConfig_contract
      [of "(exampleEnv None (Responded 200))\<lparr>existsSync := (\<lambda>p. False)\<rparr>" world0,
       THEN conjunct1]
    by (simp add: exampleEnv_def)
next
  show "loadConfig (exampleEnv None (Responded 200)) world0 = (Inl (ProcessExit 1), world0)"
    using loadConfig_contract
      [of "exampleEnv None (Responded 200)" world0 "''{}''",
       THEN conjunct2, THEN conjunct1]
    by (simp add: exampleEnv_def configPath_def path_join_project)
next
  show "loadConfig (exampleEnv (Some (JObj [(''devServerUrl'', JStr ''http://localhost:3000'')]))
        (Responded 200)) world0 = (Inl (ProcessExit 1), world0)"
    using loadConfig_contract
      [of "exampleEnv (Some (JObj [(''devServerUrl'', JStr ''http://localhost:3000'')]))
             (Responded 200)" world0 "''{}''"
          "[(''devServerUrl'', JStr ''http://localhost:3000'')]",
       THEN conjunct2, THEN conjunct2, THEN conjunct1]
    by (simp add: exampleEnv_def configPath_def path_join_project)
next
  show "loadConfig
        (exampleEnv
           (Some (JObj [(''devServerUrl'', JStr ''http://localhost:3000''),
                        (''totalSlides'', JNum 3),
                        (''slidesWithSubSlides'',
                           JObj [(''7'', JObj [(''type'', JStr ''step''), (''max'', JNum (- 4))])])]))
           (Responded 200)) world0
     = (Inr (JObj [(''devServerUrl'', JStr ''http://localhost:3000''),
                   (''totalSlides'', JNum 3),
                   (''slidesWithSubSlides'',
                      JObj [(''7'', JObj [(''type'', JStr ''step''), (''max'', JNum (- 4))])])]),
        world0)"
    using loadConfig_contract
      [of "exampleEnv
             (Some (JObj [(''devServerUrl'', JStr ''http://localhost:3000''),
                          (''totalSlides'', JNum 3),
                          (''slidesWithSubSlides'',
                             JObj [(''7'', JObj [(''type'', JStr ''step''), (''max'', JNum (- 4))])])]))
             (Responded 200)" world0 "''{}''"
          "[(''devServerUrl'', JStr ''http://localhost:3000''),
            (''totalSlides'', JNum 3),
            (''slidesWithSubSlides'',
               JObj [(''7'', JObj [(''type'', JStr ''step''), (''max'', JNum (- 4))])])]",
       THEN conjunct2, THEN conjunct2, THEN conjunct2, THEN conjunct1]
    by (simp add: exampleEnv_def configPath_def path_join_project)
qed

text \<open>
  C9. A required field that is present with a falsy value counts as missing: when the
  parsed object has a falsy target URL or a falsy slide count, among them the slide count
  0 and the empty URL, the validation throws the missing-fields error and the loader ends
  the process with exit code 1.
\<close>

theorem loadConfig_falsy_rejected:
  assumes "existsSync E (configPath E)"
    and "readFileSync E (configPath E) = Some text"
    and "JSON_parse E text = Some (JObj kvs)"
    and "\<not> truthy (map_of kvs ''devServerUrl'') \<or> \<not> truthy (map_of kvs ''totalSlides'')"
  shows "loadConfig_try E = Inl InvalidConfiguration
    \<and> loadConfig E w = (Inl (ProcessExit 1), w)
    \<and> \<not> truthy (Some (JNum 0)) \<and> \<not> truthy (Some (JStr []))"
  using assms by (auto simp: loadConfig_unfold loadConfig_try_def)

theorem loadConfig_falsy_rejected_witness:
  "loadConfig
     (exampleEnv (Some (JObj [(''devServerUrl'', JStr ''http://localhost:3000''),
                              (''totalSlides'', JNum 0)])) (Responded 200)) world0
     = (Inl (ProcessExit 1), world0)
   \<and> loadConfig
     (exampleEnv (Some (JObj [(''devServerUrl'', JStr []),
                              (''totalSlides'', JNum 3)])) (Responded 200)) world0
     = (Inl (ProcessExit 1), world0)"
proof
  show "loadConfig
     (exampleEnv (Some (JObj [(''devServerUrl'', JStr ''http://localhost:3000''),
                              (''totalSlides'', JNum 0)])) (Responded 200)) world0
     = (Inl (ProcessExit 1), world0)"
    using loadConfig_falsy_rejected
      [of "exampleEnv (Some (JObj [(''devServerUrl'', JStr ''http://localhost:3000''),
                                   (''totalSlides'', JNum 0)])) (Responded 200)"
          "''{}''"
          "[(''devServerUrl'', JStr ''http://localhost:3000''), (''totalSlides'', JNum 0)]"
          world0]
    by (simp add: exampleEnv_def configPath_def path_join_project)
next
  show "loadConfig
     (exampleEnv (Some (JObj [(''devServerUrl'', JStr []),
                              (''totalSlides'', JNum 3)])) (Responded 200)) world0
     = (Inl (ProcessExit 1), world0)"
    using loadConfig_falsy_rejected
      [of "exampleEnv (Some (JObj [(''devServerUrl'', JStr []),
                                   (''totalSlides'', JNum 3)])) (Responded 200)"
          "''{}''"
          "[(''devServerUrl'', JStr []), (''totalSlides'', JNum 3)]"
          world0]
    by (simp add: exampleEnv_def configPath_def path_join_project)
qed

section \<open>Computations: general facts\<close>

lemma addsI: "(\<And>w r w'. m w = (Inr r, w') \<Longrightarrow> f w' = f w @ xs) \<Longrightarrow> adds f xs m"
  by (simp add: adds_def)

lemma addsD: "adds f xs m \<Longrightarrow> m w = (Inr r, w') \<Longrightarrow> f w' = f w @ xs"
  by (simp add: adds_def)

lemma adds_eq: "adds f xs m \<Longrightarrow> xs = ys \<Longrightarrow> adds f ys m"
  by simp

lemma adds_return: "adds f [] (return_io x)"
  by (simp add: adds_def return_io_def)

lemma adds_throw: "adds f xs (throw_io e)"
  by (simp add: adds_def throw_io_def)

lemma bind_io_Inr:
  "bind_io m g w = (Inr r, w') \<Longrightarrow> \<exists>x w1. m w = (Inr x, w1) \<and> g x w1 = (Inr r, w')"
  by (auto simp: bind_io_def split: prod.splits sum.splits)

lemma then_io_Inr:
  "then_io m n w = (Inr r, w') \<Longrightarrow> \<exists>x w1. m w = (Inr x, w1) \<and> n w1 = (Inr r, w')"
  unfolding then_io_def by (rule bind_io_Inr)

lemma adds_bind:
  assumes "adds f xs m" and "\<And>x. adds f ys (g x)"
  shows "adds f (xs @ ys) (bind_io m g)"
proof (rule addsI)
  fix w r w'
  assume "bind_io m g w = (Inr r, w')"
  from bind_io_Inr[OF this] obtain x w1 where m: "m w = (Inr x, w1)" and g: "g x w1 = (Inr r, w')"
    by blast
  from addsD[OF assms(1) m] addsD[OF assms(2) g] show "f w' = f w @ xs @ ys"
    by simp
qed

lemma adds_then:
  assumes "adds f xs m" and "adds f ys n"
  shows "adds f (xs @ ys) (then_io m n)"
  unfolding then_io_def using assms by (intro adds_bind)

lemma always_adds_adds: "always_adds f xs m \<Longrightarrow> adds f xs m"
  by (simp add: adds_def always_adds_def)

lemma always_adds_catch: "always_adds f xs m \<Longrightarrow> always_adds f xs (catch_io m)"
  by (auto simp: always_adds_def catch_io_def split: prod.splits sum.splits error.splits)

lemma adds_catch: "always_adds f xs m \<Longrightarrow> adds f xs (catch_io m)"
  by (intro always_adds_adds always_adds_catch)

lemma adds_for_loop:
  assumes "\<And>j. i \<le> j \<Longrightarrow> j < n \<Longrightarrow> adds f (c j) (body j)"
  shows "adds f (concat (map c [i..n - 1])) (for_loop i n body)"
proof (rule addsI)
  fix w r w'
  assume "for_loop i n body w = (Inr r, w')"
  then show "f w' = f w @ concat (map c [i..n - 1])"
    using assms
  proof (induction i n body w rule: for_loop.induct)
    case (1 i n body w)
    show ?case
    proof (cases "i < n")
      case True
      from "1.prems"(1) True obtain u w1 where
        b: "body i w = (Inr u, w1)" and rest: "for_loop (i + 1) n body w1 = (Inr r, w')"
        by (subst (asm) for_loop.simps) (auto split: prod.splits sum.splits)
      have step: "f w1 = f w @ c i"
        using "1.prems"(2)[of i] True b by (auto dest: addsD)
      have "f w' = f w1 @ concat (map c [i + 1..n - 1])"
        using "1.IH"[OF True b[symmetric] refl rest] "1.prems"(2) by simp
      moreover have "[i..n - 1] = i # [i + 1..n - 1]"
        using True by (simp add: upto_rec1)
      ultimately show ?thesis using step by simp
    next
      case False
      with "1.prems"(1) have "w' = w"
        by (subst (asm) for_loop.simps) simp
      with False show ?thesis by simp
    qed
  qed
qed

lemma concat_map_const_upto: "concat (map (\<lambda>j. xs) [i..n - 1]) = concat (replicate (nat (n - i)) xs)"
proof -
  have "map (\<lambda>j. xs) [i..n - 1] = replicate (length [i..n - 1]) xs"
    by (simp add: map_replicate_const)
  then show ?thesis by simp
qed

lemma adds_for_loop_const:
  assumes "\<And>j. i \<le> j \<Longrightarrow> j < n \<Longrightarrow> adds f xs (body j)"
  shows "adds f (concat (replicate (nat (n - i)) xs)) (for_loop i n body)"
  using adds_for_loop[of i n f "\<lambda>j. xs" body] assms
  by (simp add: concat_map_const_upto)

lemma succeedsD: "succeeds m \<Longrightarrow> \<exists>r w'. m w = (Inr r, w')"
  by (simp add: succeeds_def)

lemma succeeds_return: "succeeds (return_io x)"
  by (simp add: succeeds_def return_io_def)

lemma succeeds_emit: "succeeds (emit a)"
  by (simp add: succeeds_def emit_def)

lemma succeeds_bind:
  assumes "succeeds m" and "\<And>x. succeeds (g x)"
  shows "succeeds (bind_io m g)"
  unfolding succeeds_def
proof
  fix w
  obtain x w1 where m: "m w = (Inr x, w1)" using succeedsD[OF assms(1)] by blast
  obtain r w' where "g x w1 = (Inr r, w')" using succeedsD[OF assms(2)] by blast
  with m show "\<exists>r w'. bind_io m g w = (Inr r, w')"
    by (simp add: bind_io_def)
qed

lemma succeeds_then: "succeeds m \<Longrightarrow> succeeds n \<Longrightarrow> succeeds (then_io m n)"
  unfolding then_io_def by (intro succeeds_bind)

lemma succeeds_for_loop:
  assumes "\<And>j. i \<le> j \<Longrightarrow> j < n \<Longrightarrow> succeeds (body j)"
  shows "succeeds (for_loop i n body)"
  unfolding succeeds_def
proof
  fix w
  show "\<exists>r w'. for_loop i n body w = (Inr r, w')"
    using assms
  proof (induction i n body w rule: for_loop.induct)
    case (1 i n body w)
    show ?case
    proof (cases "i < n")
      case True
      obtain u w1 where b: "body i w = (Inr u, w1)"
        using succeedsD[OF "1.prems"[of i]] True by auto
      have "\<exists>r w'. for_loop (i + 1) n body w1 = (Inr r, w')"
        using "1.IH"[OF True b[symmetric] refl] "1.prems" by simp
      then show ?thesis
        using True b by (subst for_loop.simps) simp
    next
      case False
      then show ?thesis by (subst for_loop.simps) simp
    qed
  qed
qed


lemma adds_nil_bind: "adds f [] m \<Longrightarrow> (\<And>x. adds f [] (g x)) \<Longrightarrow> adds f [] (bind_io m g)"
  using adds_bind[of f "[]" m "[]" g] by simp

lemma adds_nil_then: "adds f [] m \<Longrightarrow> adds f [] n \<Longrightarrow> adds f [] (then_io m n)"
  using adds_then[of f "[]" m "[]" n] by simp

lemma adds_nil_for_loop:
  "(\<And>j. i \<le> j \<Longrightarrow> j < n \<Longrightarrow> adds f [] (body j)) \<Longrightarrow> adds f [] (for_loop i n body)"
  using adds_for_loop_const[of i n f "[]" body] by simp

lemma performs_call: "performs a (call E a)"
  by (auto simp: performs_def call_def)

lemma performs_emit: "performs a (emit a)"
  by (auto simp: performs_def emit_def)

lemma performs_waitForFunction: "performs (WaitForFunction p t) (waitForFunction E p t)"
  by (auto simp: performs_def waitForFunction_def)

lemma performs_evaluateProgress: "performs (Evaluate (ReadProgress sel)) (evaluateProgress E sel)"
  by (auto simp: performs_def evaluateProgress_def)

lemma performs_screenshot: "performs Screenshot (screenshot E)"
  by (auto simp: performs_def screenshot_def)

lemma performsD: "performs a m \<Longrightarrow> m w = (r, w') \<Longrightarrow> w' = w\<lparr>trace := trace w @ [a]\<rparr>"
  unfolding performs_def by blast

lemma performs_trace: "performs a m \<Longrightarrow> always_adds trace [a] m"
  unfolding always_adds_def by (auto dest!: performsD)

lemma performs_keys: "performs a m \<Longrightarrow> always_adds keyPresses (keyOf a) m"
  unfolding always_adds_def by (auto dest!: performsD simp: keyPresses_def)

lemma performs_pages: "performs a m \<Longrightarrow> always_adds pages [] m"
  unfolding always_adds_def by (auto dest!: performsD simp: pages_def)

lemma waitForAnimation_run:
  "waitForAnimation E config delay w = (Inr (), w\<lparr>trace := trace w @ waitActions config delay\<rparr>)"
  by (simp add: waitForAnimation_def waitActions_def then_io_def bind_io_def emit_def
      catch_io_def waitForFunction_def Let_def)

lemma waitForAnimation_trace: "adds trace (waitActions config delay) (waitForAnimation E config delay)"
  by (simp add: adds_def waitForAnimation_run)

lemma waitActions_keys: "concat (map keyOf (waitActions config delay)) = []"
  by (simp add: waitActions_def)

lemma waitForAnimation_keys: "adds keyPresses [] (waitForAnimation E config delay)"
  by (auto simp: adds_def waitForAnimation_run keyPresses_def waitActions_keys)

lemma waitForAnimation_pages: "adds pages [] (waitForAnimation E config delay)"
  by (auto simp: adds_def waitForAnimation_run pages_def)

lemma succeeds_waitForAnimation: "succeeds (waitForAnimation E config delay)"
  by (simp add: succeeds_def waitForAnimation_run)

lemma call_keys: "adds keyPresses (keyOf a) (call E a)"
  by (rule always_adds_adds[OF performs_keys[OF performs_call]])

lemma call_pages: "adds pages [] (call E a)"
  by (rule always_adds_adds[OF performs_pages[OF performs_call]])

lemma call_trace: "adds trace [a] (call E a)"
  by (rule always_adds_adds[OF performs_trace[OF performs_call]])

lemma catch_call_pages: "adds pages [] (catch_io (call E a))"
  by (rule adds_catch[OF performs_pages[OF performs_call]])

lemma catch_waitForFunction_pages: "adds pages [] (catch_io (waitForFunction E p t))"
  by (rule adds_catch[OF performs_pages[OF performs_waitForFunction]])

lemma emit_pages: "adds pages [] (emit a)"
  by (rule always_adds_adds[OF performs_pages[OF performs_emit]])

lemma screenshot_pages: "adds pages [] (screenshot E)"
  by (rule always_adds_adds[OF performs_pages[OF performs_screenshot]])

lemma press_wait_trace:
  "adds trace (KeyPress k # waitActions config delay)
     (then_io (call E (KeyPress k)) (waitForAnimation E config delay))"
  using adds_then[OF call_trace waitForAnimation_trace] by simp

lemma press_wait_keys:
  "adds keyPresses [k] (then_io (call E (KeyPress k)) (waitForAnimation E config delay))"
  using adds_then[OF call_keys[where E = E and a = "KeyPress k"] waitForAnimation_keys] by simp

lemma press_wait_pages:
  "adds pages [] (then_io (call E (KeyPress k)) (waitForAnimation E config delay))"
  by (intro adds_nil_then call_pages waitForAnimation_pages)

lemma navigateSubSlide_keys:
  "adds keyPresses [if dir = down then ArrowDown else ArrowUp] (navigateSubSlide E dir config)"
  unfolding navigateSubSlide_def Let_def by (rule press_wait_keys)

lemma navigateSubSlide_pages: "adds pages [] (navigateSubSlide E dir config)"
  unfolding navigateSubSlide_def Let_def by (rule press_wait_pages)

lemma hideUIElements_keys: "adds keyPresses [] (hideUIElements E config)"
  unfolding hideUIElements_def
  using adds_then[OF call_keys[where E = E and a = "Evaluate (HideUI (selectors config))"] waitForAnimation_keys]
  by simp

lemma hideUIElements_pages: "adds pages [] (hideUIElements E config)"
  unfolding hideUIElements_def by (intro adds_nil_then call_pages waitForAnimation_pages)

lemma quiet_keys: "performs a m \<Longrightarrow> keyOf a = [] \<Longrightarrow> adds keyPresses [] m"
  using always_adds_adds[OF performs_keys, of a m] by simp

lemma quiet_catch_keys: "performs a m \<Longrightarrow> keyOf a = [] \<Longrightarrow> adds keyPresses [] (catch_io m)"
  using adds_catch[OF performs_keys, of a m] by simp

lemma typewriter_keys:
  "adds keyPresses [] (then_io (catch_io (waitForFunction E TypewriterDone t)) (emit (Sleep t)))"
proof -
  have 1: "adds keyPresses [] (catch_io (waitForFunction E TypewriterDone t))"
    by (rule quiet_catch_keys[OF performs_waitForFunction]) simp
  have 2: "adds keyPresses [] (emit (Sleep t))"
    by (rule quiet_keys[OF performs_emit]) simp
  show ?thesis by (intro adds_nil_then 1 2)
qed

lemma typewriter_pages:
  "adds pages [] (then_io (catch_io (waitForFunction E TypewriterDone t)) (emit (Sleep t)))"
  by (intro adds_nil_then catch_waitForFunction_pages emit_pages)

lemma waitForSlideContent_keys: "adds keyPresses [] (waitForSlideContent E slideIndex config)"
proof -
  have 1: "adds keyPresses [] (catch_io (call E (WaitForSelector s b t)))" for s b t
    by (rule quiet_catch_keys[OF performs_call]) simp
  show ?thesis
    unfolding waitForSlideContent_def Let_def
    by (intro adds_nil_then 1 waitForAnimation_keys)
       (auto simp: adds_return typewriter_keys[unfolded Let_def] split: option.splits)
qed

lemma waitForSlideContent_pages: "adds pages [] (waitForSlideContent E slideIndex config)"
proof -
  show ?thesis
    unfolding waitForSlideContent_def Let_def
    by (intro adds_nil_then catch_call_pages waitForAnimation_pages)
       (auto simp: adds_return typewriter_pages split: option.splits)
qed

lemma takeScreenshot_keys: "adds keyPresses [] (takeScreenshot E filename slideIndex config)"
proof -
  have 1: "adds keyPresses [] (call E (SetViewport a b))" for a b
    using call_keys[where E = E and a = "SetViewport a b"] by simp
  have 2: "adds keyPresses [] (screenshot E)"
    by (rule quiet_keys[OF performs_screenshot]) simp
  show ?thesis
    unfolding takeScreenshot_def by (intro adds_nil_then 1 2 waitForSlideContent_keys)
qed

lemma takeScreenshot_pages: "adds pages [] (takeScreenshot E filename slideIndex config)"
  unfolding takeScreenshot_def
  by (intro adds_nil_then call_pages waitForSlideContent_pages screenshot_pages)

section \<open>The settle wait and the slide navigation: results\<close>




lemma succeeds_call: "\<forall>tr a. \<not> rejects E tr a \<Longrightarrow> succeeds (call E a)"
  by (simp add: succeeds_def call_def)

lemma evaluateProgress_Inr:
  "evaluateProgress E sel w = (Inr x, w') \<Longrightarrow>
     x = currentSlideOf E (trace w) sel \<and> w' = w\<lparr>trace := trace w @ [Evaluate (ReadProgress sel)]\<rparr>"
  by (auto simp: evaluateProgress_def split: if_splits)

lemma succeeds_evaluateProgress: "\<forall>tr a. \<not> rejects E tr a \<Longrightarrow> succeeds (evaluateProgress E sel)"
  by (simp add: succeeds_def evaluateProgress_def)

lemma succeeds_press_wait:
  "\<forall>tr a. \<not> rejects E tr a \<Longrightarrow>
     succeeds (then_io (call E (KeyPress k)) (waitForAnimation E config delay))"
  by (intro succeeds_then succeeds_call succeeds_waitForAnimation)

lemma succeeds_navigateToSlide:
  assumes "\<forall>tr a. \<not> rejects E tr a"
  shows "succeeds (navigateToSlide E slideIndex config)"
  unfolding navigateToSlide_def Let_def
  by (intro succeeds_bind succeeds_evaluateProgress assms)
     (auto intro!: succeeds_for_loop succeeds_press_wait succeeds_waitForAnimation assms
           split: option.splits)

lemma keyPresses_append_trace:
  "trace w' = trace w @ evs \<Longrightarrow> keyPresses w' = keyPresses w @ concat (map keyOf evs)"
  by (simp add: keyPresses_def)

lemma keys_replicate_press_wait:
  "concat (map keyOf (concat (replicate n (KeyPress k # waitActions config delay)))) = replicate n k"
  by (induction n) (simp_all add: waitActions_keys)

text \<open>
  A navigation that returns, with the progress indicator read as slide \<open>A\<close>: its actions
  in terms of the actions of the settle wait.
\<close>

lemma navigateToSlide_run:
  assumes "currentSlideOf E (trace w) (progressBar (selectors config)) = Some A"
  shows "(\<forall>u w'. navigateToSlide E B config w = (Inr u, w') \<longrightarrow>
            trace w' = trace w @ Evaluate (ReadProgress (progressBar (selectors config))) #
              (if B = A then waitActions config (Some 500)
               else concat (replicate (nat \<bar>B - A\<bar>)
                      (KeyPress (if A < B then ArrowRight else ArrowLeft)
                         # waitActions config (Some (slideTransitionWaitTime config)))))
            \<and> keyPresses w' = keyPresses w
                 @ replicate (nat \<bar>B - A\<bar>) (if A < B then ArrowRight else ArrowLeft))
     \<and> (\<forall>d w1. waitForAnimation E config d w1
            = (Inr (), w1\<lparr>trace := trace w1 @ waitActions config d\<rparr>))
     \<and> ((\<forall>tr a. \<not> rejects E tr a) \<longrightarrow> (\<exists>w'. navigateToSlide E B config w = (Inr (), w')))"
proof (intro conjI allI impI)
  fix u w'
  assume run: "navigateToSlide E B config w = (Inr u, w')"
  let ?sel = "progressBar (selectors config)"
  let ?w1 = "w\<lparr>trace := trace w @ [Evaluate (ReadProgress ?sel)]\<rparr>"
  let ?t = "Some (slideTransitionWaitTime config)"
  from run[unfolded navigateToSlide_def, THEN bind_io_Inr]
  obtain x w1 where ev: "evaluateProgress E ?sel w = (Inr x, w1)"
    and rest: "(case x of
         None \<Rightarrow> waitForAnimation E config (Some 500)
       | Some current \<Rightarrow>
           (let steps = B - current in
            if steps > 0 then
              for_loop 0 steps (\<lambda>i.
                then_io (call E (KeyPress ArrowRight)) (waitForAnimation E config ?t))
            else if steps < 0 then
              for_loop 0 (abs steps) (\<lambda>i.
                then_io (call E (KeyPress ArrowLeft)) (waitForAnimation E config ?t))
            else waitForAnimation E config (Some 500))) w1 = (Inr u, w')"
    by blast
  from evaluateProgress_Inr[OF ev] assms have x: "x = Some A" and w1: "w1 = ?w1"
    by simp_all
  have tr: "trace w' = trace w1 @
              (if B = A then waitActions config (Some 500)
               else concat (replicate (nat \<bar>B - A\<bar>)
                      (KeyPress (if A < B then ArrowRight else ArrowLeft)
                         # waitActions config ?t)))"
  proof -
    consider (forward) "B - A > 0" | (backward) "B - A < 0" | (same) "B = A"
      by linarith
    then show ?thesis
    proof cases
      case forward
      with rest x have "for_loop 0 (B - A) (\<lambda>i.
          then_io (call E (KeyPress ArrowRight)) (waitForAnimation E config ?t)) w1 = (Inr u, w')"
        by (simp add: Let_def)
      from addsD[OF adds_for_loop_const[OF press_wait_trace] this] forward
      show ?thesis by simp
    next
      case backward
      with rest x have "for_loop 0 \<bar>B - A\<bar> (\<lambda>i.
          then_io (call E (KeyPress ArrowLeft)) (waitForAnimation E config ?t)) w1 = (Inr u, w')"
        by (simp add: Let_def)
      from addsD[OF adds_for_loop_const[OF press_wait_trace] this] backward
      show ?thesis by simp
    next
      case same
      with rest x have "waitForAnimation E config (Some 500) w1 = (Inr u, w')"
        by (simp add: Let_def)
      from addsD[OF waitForAnimation_trace this] same show ?thesis by simp
    qed
  qed
  with w1 show "trace w' = trace w @ Evaluate (ReadProgress ?sel) #
              (if B = A then waitActions config (Some 500)
               else concat (replicate (nat \<bar>B - A\<bar>)
                      (KeyPress (if A < B then ArrowRight else ArrowLeft)
                         # waitActions config ?t)))"
    by simp
  then show "keyPresses w' = keyPresses w
                 @ replicate (nat \<bar>B - A\<bar>) (if A < B then ArrowRight else ArrowLeft)"
    by (simp add: keyPresses_def waitActions_keys keys_replicate_press_wait)
next
  fix d w1
  show "waitForAnimation E config d w1 = (Inr (), w1\<lparr>trace := trace w1 @ waitActions config d\<rparr>)"
    by (rule waitForAnimation_run)
next
  assume "\<forall>tr a. \<not> rejects E tr a"
  from succeedsD[OF succeeds_navigateToSlide[OF this], of B config w]
  show "\<exists>w'. navigateToSlide E B config w = (Inr (), w')"
    by simp
qed


text \<open>
  C2, as stated, for a configured inter-slide duration of 0 and a base animation wait of
  2000, on the way from slide 2 to slide 3: the wait that follows the key press sleeps
  2000, not 0.
\<close>

theorem navigateToSlide_zero_duration_counterexample:
  "slideTransitionWaitTime (exampleConfig\<lparr>slideTransitionWaitTime := 0\<rparr>) = 0
   \<and> navigateToSlide (exampleEnv None (Responded 200)) 3
        (exampleConfig\<lparr>slideTransitionWaitTime := 0\<rparr>)
        (world0\<lparr>trace := [KeyPress ArrowRight, KeyPress ArrowRight]\<rparr>)
     = (Inr (),
        world0\<lparr>trace :=
          [KeyPress ArrowRight, KeyPress ArrowRight,
           Evaluate (ReadProgress ''[role=progressbar]''),
           KeyPress ArrowRight, Sleep 2000, WaitForFunction (MainContentOpaque ''main'') 3000]\<rparr>)"
proof
  show "slideTransitionWaitTime (exampleConfig\<lparr>slideTransitionWaitTime := 0\<rparr>) = 0"
    by simp
next
  let ?E = "exampleEnv None (Responded 200)"
  let ?config = "exampleConfig\<lparr>slideTransitionWaitTime := 0\<rparr>"
  let ?w = "world0\<lparr>trace := [KeyPress ArrowRight, KeyPress ArrowRight]\<rparr>"
  have cur: "currentSlideOf ?E (trace ?w) (progressBar (selectors ?config)) = Some 2"
    by (simp add: currentSlideOf_def exampleEnv_def toString_def digits.simps digitChar_def)
  have step: "for_loop 0 1 (\<lambda>i. then_io (call ?E (KeyPress ArrowRight))
        (waitForAnimation ?E ?config (Some 0))) w1
      = (Inr (), w1\<lparr>trace := trace w1 @ KeyPress ArrowRight # waitActions ?config (Some 0)\<rparr>)"
    for w1
    by (simp add: for_loop.simps then_io_def bind_io_def call_def waitForAnimation_run
        exampleEnv_def)
  have "navigateToSlide ?E 3 ?config ?w
      = (Inr (), ?w\<lparr>trace := trace ?w @ Evaluate (ReadProgress (progressBar (selectors ?config)))
           # KeyPress ArrowRight # waitActions ?config (Some 0)\<rparr>)"
    using cur
    by (simp add: navigateToSlide_def bind_io_def evaluateProgress_def step)
       (simp add: exampleEnv_def)
  then show "navigateToSlide ?E 3 ?config ?w
     = (Inr (),
        world0\<lparr>trace :=
          [KeyPress ArrowRight, KeyPress ArrowRight,
           Evaluate (ReadProgress ''[role=progressbar]''),
           KeyPress ArrowRight, Sleep 2000, WaitForFunction (MainContentOpaque ''main'') 3000]\<rparr>)"
    by (simp add: waitActions_def exampleConfig_def exampleSelectors_def world0_def)
qed

text \<open>
  C2, amended. With the progress indicator read as slide \<open>A\<close>, a navigation to slide \<open>B\<close>
  that returns has performed, after the read, \<open>|B - A|\<close> times a key press followed by one
  settle wait invoked with the configured inter-slide duration: ArrowRight presses when
  \<open>A < B\<close>, ArrowLeft presses when \<open>B < A\<close>. Each of these waits sleeps for the inter-slide
  duration when that is not 0, and for the base animation wait when it is 0, and then polls
  once. When \<open>A = B\<close> there is no key press and one settle wait of 500 ms. When no browser
  call is rejected the navigation returns.
\<close>

theorem navigateToSlide_key_events:
  assumes "currentSlideOf E (trace w) (progressBar (selectors config)) = Some A"
  shows "(\<forall>u w'. navigateToSlide E B config w = (Inr u, w') \<longrightarrow>
            keyPresses w' = keyPresses w
              @ replicate (nat \<bar>B - A\<bar>) (if A < B then ArrowRight else ArrowLeft)
            \<and> trace w' = trace w @ Evaluate (ReadProgress (progressBar (selectors config))) #
              (if B = A then
                 [Sleep 500,
                  WaitForFunction (MainContentOpaque (mainContent (selectors config))) 3000]
               else concat (replicate (nat \<bar>B - A\<bar>)
                      [KeyPress (if A < B then ArrowRight else ArrowLeft),
                       Sleep (if slideTransitionWaitTime config = 0 then animationWaitTime config
                              else slideTransitionWaitTime config),
                       WaitForFunction (MainContentOpaque (mainContent (selectors config))) 3000])))
     \<and> ((\<forall>tr a. \<not> rejects E tr a) \<longrightarrow> (\<exists>w'. navigateToSlide E B config w = (Inr (), w')))"
proof (intro conjI allI impI)
  fix u w'
  assume run: "navigateToSlide E B config w = (Inr u, w')"
  with navigateToSlide_run[OF assms, of B, THEN conjunct1]
  show "keyPresses w' = keyPresses w
      @ replicate (nat \<bar>B - A\<bar>) (if A < B then ArrowRight else ArrowLeft)"
    by blast
  from run navigateToSlide_run[OF assms, of B, THEN conjunct1]
  have "trace w' = trace w @ Evaluate (ReadProgress (progressBar (selectors config))) #
              (if B = A then waitActions config (Some 500)
               else concat (replicate (nat \<bar>B - A\<bar>)
                      (KeyPress (if A < B then ArrowRight else ArrowLeft)
                         # waitActions config (Some (slideTransitionWaitTime config)))))"
    by blast
  then show "trace w' = trace w @ Evaluate (ReadProgress (progressBar (selectors config))) #
              (if B = A then
                 [Sleep 500,
                  WaitForFunction (MainContentOpaque (mainContent (selectors config))) 3000]
               else concat (replicate (nat \<bar>B - A\<bar>)
                      [KeyPress (if A < B then ArrowRight else ArrowLeft),
                       Sleep (if slideTransitionWaitTime config = 0 then animationWaitTime config
                              else slideTransitionWaitTime config),
                       WaitForFunction (MainContentOpaque (mainContent (selectors config))) 3000]))"
    by (simp add: waitActions_def)
next
  assume "\<forall>tr a. \<not> rejects E tr a"
  with navigateToSlide_run[OF assms, of B, THEN conjunct2, THEN conjunct2]
  show "\<exists>w'. navigateToSlide E B config w = (Inr (), w')"
    by blast
qed

theorem navigateToSlide_key_events_witness:
  "(\<exists>w'. navigateToSlide (exampleEnv None (Responded 200)) 5 exampleConfig
            (world0\<lparr>trace := [KeyPress ArrowRight, KeyPress ArrowRight]\<rparr>) = (Inr (), w')
         \<and> keyPresses w' = [ArrowRight, ArrowRight] @ [ArrowRight, ArrowRight, ArrowRight])
   \<and> (\<exists>w'. navigateToSlide (exampleEnv None (Responded 200)) 2 exampleConfig
            (world0\<lparr>trace := [KeyPress ArrowRight, KeyPress ArrowRight, KeyPress ArrowRight,
                                KeyPress ArrowRight, KeyPress ArrowRight]\<rparr>) = (Inr (), w')
         \<and> trace w' =
              [KeyPress ArrowRight, KeyPress ArrowRight, KeyPress ArrowRight,
               KeyPress ArrowRight, KeyPress ArrowRight,
               Evaluate (ReadProgress ''[role=progressbar]''),
               KeyPress ArrowLeft, Sleep 1000, WaitForFunction (MainContentOpaque ''main'') 3000,
               KeyPress ArrowLeft, Sleep 1000, WaitForFunction (MainContentOpaque ''main'') 3000,
               KeyPress ArrowLeft, Sleep 1000, WaitForFunction (MainContentOpaque ''main'') 3000])"
proof
  let ?E = "exampleEnv None (Responded 200)"
  let ?w = "world0\<lparr>trace := [KeyPress ArrowRight, KeyPress ArrowRight]\<rparr>"
  have cur: "currentSlideOf ?E (trace ?w) (progressBar (selectors exampleConfig)) = Some 2"
    by (simp add: currentSlideOf_def exampleEnv_def toString_def digits.simps digitChar_def)
  note T = navigateToSlide_key_events[OF cur, of 5]
  from T[THEN conjunct2]
  obtain w' where run: "navigateToSlide ?E 5 exampleConfig ?w = (Inr (), w')"
    by (auto simp: exampleEnv_def)
  with T[THEN conjunct1] have "keyPresses w' = keyPresses ?w @ replicate 3 ArrowRight"
    by simp
  then have "keyPresses w' = [ArrowRight, ArrowRight] @ [ArrowRight, ArrowRight, ArrowRight]"
    by (simp add: keyPresses_def numeral_3_eq_3)
  with run show "\<exists>w'. navigateToSlide ?E 5 exampleConfig ?w = (Inr (), w')
      \<and> keyPresses w' = [ArrowRight, ArrowRight] @ [ArrowRight, ArrowRight, ArrowRight]"
    by blast
next
  let ?E = "exampleEnv None (Responded 200)"
  let ?w = "world0\<lparr>trace := [KeyPress ArrowRight, KeyPress ArrowRight, KeyPress ArrowRight,
                                KeyPress ArrowRight, KeyPress ArrowRight]\<rparr>"
  have cur: "currentSlideOf ?E (trace ?w) (progressBar (selectors exampleConfig)) = Some 5"
    by (simp add: currentSlideOf_def exampleEnv_def toString_def digits.simps digitChar_def)
  note T = navigateToSlide_key_events[OF cur, of 2]
  from T[THEN conjunct2]
  obtain w' where run: "navigateToSlide ?E 2 exampleConfig ?w = (Inr (), w')"
    by (auto simp: exampleEnv_def)
  with T[THEN conjunct1] have "trace w' = trace ?w
      @ Evaluate (ReadProgress (progressBar (selectors exampleConfig)))
      # concat (replicate 3
          [KeyPress ArrowLeft,
           Sleep (if slideTransitionWaitTime exampleConfig = 0 then animationWaitTime exampleConfig
                  else slideTransitionWaitTime exampleConfig),
           WaitForFunction (MainContentOpaque (mainContent (selectors exampleConfig))) 3000])"
    by simp
  then have "trace w' =
              [KeyPress ArrowRight, KeyPress ArrowRight, KeyPress ArrowRight,
               KeyPress ArrowRight, KeyPress ArrowRight,
               Evaluate (ReadProgress ''[role=progressbar]''),
               KeyPress ArrowLeft, Sleep 1000, WaitForFunction (MainContentOpaque ''main'') 3000,
               KeyPress ArrowLeft, Sleep 1000, WaitForFunction (MainContentOpaque ''main'') 3000,
               KeyPress ArrowLeft, Sleep 1000, WaitForFunction (MainContentOpaque ''main'') 3000]"
    by (simp add: exampleConfig_def exampleSelectors_def numeral_3_eq_3)
  with run show "\<exists>w'. navigateToSlide ?E 2 exampleConfig ?w = (Inr (), w')
         \<and> trace w' =
              [KeyPress ArrowRight, KeyPress ArrowRight, KeyPress ArrowRight,
               KeyPress ArrowRight, KeyPress ArrowRight,
               Evaluate (ReadProgress ''[role=progressbar]''),
               KeyPress ArrowLeft, Sleep 1000, WaitForFunction (MainContentOpaque ''main'') 3000,
               KeyPress ArrowLeft, Sleep 1000, WaitForFunction (MainContentOpaque ''main'') 3000,
               KeyPress ArrowLeft, Sleep 1000, WaitForFunction (MainContentOpaque ''main'') 3000]"
    by blast
qed

section \<open>The export orchestrator: pages\<close>

lemma navigateToSlide_pages: "adds pages [] (navigateToSlide E slideIndex config)"
  unfolding navigateToSlide_def Let_def
  by (intro adds_nil_bind always_adds_adds[OF performs_pages[OF performs_evaluateProgress]])
     (auto intro!: adds_nil_for_loop press_wait_pages waitForAnimation_pages split: option.splits)

lemma pushScreenshotFile_pages: "adds pages [] (pushScreenshotFile filepath)"
  by (auto simp: adds_def pushScreenshotFile_def pages_def)

lemma convert_add_pages:
  "adds pages [()]
     (bind_io (convertImageToPDF E shot) (\<lambda>pdfDoc. then_io (addPages pdfDoc) incrementTotalPages))"
  by (auto simp: adds_def bind_io_def then_io_def convertImageToPDF_def return_io_def throw_io_def
      addPages_def incrementTotalPages_def pages_def split: if_splits)

lemma exportPage_pages: "adds pages [()] (exportPage E config slideIndex filename)"
proof -
  have inner: "adds pages ([] @ [] @ [()])
      (then_io (call E (WriteFile filepath (Image shot)))
         (then_io (pushScreenshotFile filepath)
            (bind_io (convertImageToPDF E shot)
               (\<lambda>pdfDoc. then_io (addPages pdfDoc) incrementTotalPages))))" for filepath shot
    by (intro adds_then call_pages pushScreenshotFile_pages convert_add_pages)
  have "adds pages ([] @ [] @ [()]) (exportPage E config slideIndex filename)"
    unfolding exportPage_def Let_def
    by (intro adds_then adds_bind hideUIElements_pages takeScreenshot_pages)
       (use inner in simp)
  then show ?thesis by simp
qed

lemma exportSubSlides_pages:
  "adds pages (replicate (nat (endIndex + 1 - startIndex)) ())
     (exportSubSlides E config slideIndex t startIndex endIndex)"
proof -
  have body: "adds pages [()]
      (then_io (if subIndex > startIndex then navigateSubSlide E down config else return_io ())
         (exportPage E config slideIndex (subSlideFilename slideIndex t subIndex)))" for subIndex
  proof -
    have "adds pages [] (if subIndex > startIndex then navigateSubSlide E down config else return_io ())"
      by (simp add: navigateSubSlide_pages adds_return)
    from adds_then[OF this exportPage_pages] show ?thesis by simp
  qed
  have "adds pages (concat (replicate (nat (endIndex + 1 - startIndex)) [()]))
     (exportSubSlides E config slideIndex t startIndex endIndex)"
    unfolding exportSubSlides_def by (rule adds_for_loop_const) (rule body)
  moreover have "concat (replicate n [()]) = replicate n ()" for n
    by (induction n) simp_all
  ultimately show ?thesis by simp
qed

lemma resetSubSlides_pages: "adds pages [] (resetSubSlides E config t endIndex)"
  unfolding resetSubSlides_def
  by (auto intro!: adds_nil_for_loop navigateSubSlide_pages)

lemma exportSlide_pages:
  "adds pages (replicate (slidePages config slideIndex) ()) (exportSlide E config slideIndex)"
proof (cases "slidesWithSubSlides config (toString slideIndex)")
  case None
  then show ?thesis
    unfolding exportSlide_def slidePages_def
    using adds_then[OF navigateToSlide_pages exportPage_pages] by simp
next
  case (Some sc)
  have "adds pages ([] @ replicate (nat (slide_max sc + 1 - (if slide_type sc = subSlide then 0 else 1))) () @ [])
     (then_io (navigateToSlide E slideIndex config)
        (then_io (exportSubSlides E config slideIndex (slide_type sc)
                    (if slide_type sc = subSlide then 0 else 1) (slide_max sc))
           (resetSubSlides E config (slide_type sc) (slide_max sc))))"
    by (intro adds_then navigateToSlide_pages exportSubSlides_pages resetSubSlides_pages)
  with Some show ?thesis
    unfolding exportSlide_def slidePages_def by (simp add: Let_def)
qed

lemma slide_loop_pages:
  "adds pages (concat (map (\<lambda>i. replicate (slidePages config i) ()) [0..n - 1]))
     (for_loop 0 n (exportSlide E config))"
  by (rule adds_for_loop) (rule exportSlide_pages)

lemma length_concat_replicate:
  "length (concat (map (\<lambda>i. replicate (f i) ()) xs)) = sum_list (map f xs)"
  by (induction xs) simp_all

lemma wellFormed_pageCount:
  "wellFormed config \<Longrightarrow>
     int (sum_list (map (slidePages config) [0..totalSlides config - 1])) = spec_pageCount config"
proof -
  assume wf: "wellFormed config"
  have "list_all (\<lambda>i. case slidesWithSubSlides config (toString i) of
                      None \<Rightarrow> True
                    | Some sc \<Rightarrow> (if slide_type sc = subSlide then 0 else 1) \<le> slide_max sc) xs
    \<Longrightarrow> int (sum_list (map (slidePages config) xs)) =
        (\<Sum>i\<leftarrow>xs. case slidesWithSubSlides config (toString i) of
          None \<Rightarrow> 1
        | Some sc \<Rightarrow> if slide_type sc = subSlide then slide_max sc + 1 else slide_max sc)" for xs
    by (induction xs) (auto simp: slidePages_def split: option.splits if_splits)
  with wf show ?thesis
    by (simp add: wellFormed_def spec_pageCount_def)
qed

text \<open>A well-formed configuration has a first slide, and every slide of it has a page.\<close>

lemma wellFormed_pages_positive:
  assumes "wellFormed config"
  shows "0 < sum_list (map (slidePages config) [0..totalSlides config - 1])"
proof -
  from assms have n: "0 < totalSlides config"
    and each: "list_all (\<lambda>i. case slidesWithSubSlides config (toString i) of
                      None \<Rightarrow> True
                    | Some sc \<Rightarrow> (if slide_type sc = subSlide then 0 else 1) \<le> slide_max sc)
                 [0..totalSlides config - 1]"
    by (simp_all add: wellFormed_def)
  from n have first: "[0..totalSlides config - 1] = 0 # [1..totalSlides config - 1]"
    by (simp add: upto.simps)
  with each have "case slidesWithSubSlides config (toString 0) of
                      None \<Rightarrow> True
                    | Some sc \<Rightarrow> (if slide_type sc = subSlide then 0 else 1) \<le> slide_max sc"
    by simp
  then have "0 < slidePages config 0"
    by (auto simp: slidePages_def split: option.splits if_splits)
  with first show ?thesis
    by simp
qed


lemma finally_io_Inr:
  "finally_io m c w = (Inr u, w') \<Longrightarrow> \<exists>w1 v. m w = (Inr u, w1) \<and> c w1 = (Inr v, w')"
  by (auto simp: finally_io_def split: prod.splits sum.splits error.splits)

lemma call_Inr: "call E a w = (Inr u, w') \<Longrightarrow> w' = w\<lparr>trace := trace w @ [a]\<rparr>"
  by (rule performsD[OF performs_call])

lemma save_Inr:
  "savePdf E w = (Inr u, w') \<Longrightarrow>
     mergedPdf w' = (if mergedPdf w = [] then [BlankPage] else mergedPdf w)
     \<and> trace w' = trace w @ [WriteFile (OUTPUT_FILE E) (Document (mergedPdf w'))]"
  by (auto simp: savePdf_def then_io_def bind_io_def save_def call_def split: if_splits)

text \<open>
  The document the export writes holds the pages of the slides, and one blank page where
  the slides gave none.
\<close>

lemma try_body_Inr:
  assumes "exportPresentationToPDF_try E config w = (Inr u, w')"
  shows "(sum_list (map (slidePages config) [0..totalSlides config - 1]) = 0
            \<longrightarrow> mergedPdf w' = [BlankPage])
    \<and> (sum_list (map (slidePages config) [0..totalSlides config - 1]) \<noteq> 0
            \<longrightarrow> length (mergedPdf w')
                  = sum_list (map (slidePages config) [0..totalSlides config - 1]))
    \<and> (\<exists>tr. trace w' = tr @ [WriteFile (OUTPUT_FILE E) (Document (mergedPdf w'))])"
proof -
  from assms obtain w4 w5 w6 where
    create: "createMergedPdf w4 = (Inr (), w5)"
    and loop: "for_loop 0 (totalSlides config) (exportSlide E config) w5 = (Inr (), w6)"
    and save: "savePdf E w6 = (Inr u, w')"
    unfolding exportPresentationToPDF_try_def
    by (auto dest!: then_io_Inr)
  from create have "pages w5 = []"
    by (auto simp: createMergedPdf_def pages_def)
  with addsD[OF slide_loop_pages loop]
  have "pages w6 = concat (map (\<lambda>i. replicate (slidePages config i) ()) [0..totalSlides config - 1])"
    by simp
  then have "length (pages w6) = sum_list (map (slidePages config) [0..totalSlides config - 1])"
    by (simp only: length_concat_replicate)
  then have len: "length (mergedPdf w6) = sum_list (map (slidePages config) [0..totalSlides config - 1])"
    by (simp add: pages_def)
  define n where "n = sum_list (map (slidePages config) [0..totalSlides config - 1])"
  from len have empty: "mergedPdf w6 = [] \<longleftrightarrow> n = 0"
    by (simp only: n_def[symmetric] length_0_conv[symmetric])
  from save_Inr[OF save] have doc: "mergedPdf w' = (if n = 0 then [BlankPage] else mergedPdf w6)"
    and tr: "trace w' = trace w6 @ [WriteFile (OUTPUT_FILE E) (Document (mergedPdf w'))]"
    by (simp_all only: empty)
  from len have "length (mergedPdf w6) = n"
    by (simp only: n_def)
  with doc have "n = 0 \<longrightarrow> mergedPdf w' = [BlankPage]" and "n \<noteq> 0 \<longrightarrow> length (mergedPdf w') = n"
    by simp_all
  with tr show ?thesis
    unfolding n_def by blast
qed

lemma export_run_Inr:
  assumes "exportPresentationToPDF E w = (Inr u, w')"
    and "loadConfig E w = (Inr parsed, w)"
  shows "\<exists>wA wB. exportPresentationToPDF_try E (typed E parsed) wA = (Inr u, wB)
           \<and> w' = wB\<lparr>trace := trace wB @ [CloseBrowser]\<rparr>"
  using assms unfolding exportPresentationToPDF_def
  by (auto dest!: bind_io_Inr then_io_Inr finally_io_Inr call_Inr
      simp: Let_def throw_io_def split: if_splits) blast


section \<open>The export orchestrator: runs without failures\<close>

lemma succeeds_catch_call: "succeeds (catch_io (call E a))"
  by (auto simp: succeeds_def catch_io_def call_def)

lemma succeeds_catch_waitForFunction: "succeeds (catch_io (waitForFunction E p t))"
  by (auto simp: succeeds_def catch_io_def waitForFunction_def)

lemma succeeds_navigateSubSlide:
  "\<forall>tr a. \<not> rejects E tr a \<Longrightarrow> succeeds (navigateSubSlide E dir config)"
  unfolding navigateSubSlide_def Let_def by (rule succeeds_press_wait)

lemma succeeds_hideUIElements:
  "\<forall>tr a. \<not> rejects E tr a \<Longrightarrow> succeeds (hideUIElements E config)"
  unfolding hideUIElements_def by (intro succeeds_then succeeds_call succeeds_waitForAnimation)

lemma succeeds_waitForSlideContent: "succeeds (waitForSlideContent E slideIndex config)"
  unfolding waitForSlideContent_def Let_def
  by (intro succeeds_then succeeds_catch_call succeeds_waitForAnimation)
     (auto intro!: succeeds_return succeeds_then succeeds_catch_waitForFunction succeeds_emit
           split: option.splits)

lemma succeeds_screenshot: "\<forall>tr a. \<not> rejects E tr a \<Longrightarrow> succeeds (screenshot E)"
  by (simp add: succeeds_def screenshot_def)

lemma succeeds_takeScreenshot:
  "\<forall>tr a. \<not> rejects E tr a \<Longrightarrow> succeeds (takeScreenshot E filename slideIndex config)"
  unfolding takeScreenshot_def
  by (intro succeeds_then succeeds_call succeeds_waitForSlideContent succeeds_screenshot)

lemma succeeds_convert_add:
  "\<forall>b. embedPng E b \<Longrightarrow>
     succeeds (bind_io (convertImageToPDF E shot)
                 (\<lambda>pdfDoc. then_io (addPages pdfDoc) incrementTotalPages))"
  by (simp add: succeeds_def bind_io_def then_io_def convertImageToPDF_def return_io_def
      addPages_def incrementTotalPages_def)

lemma succeeds_pushScreenshotFile: "succeeds (pushScreenshotFile filepath)"
  by (simp add: succeeds_def pushScreenshotFile_def)

lemma succeeds_exportPage:
  assumes "\<forall>tr a. \<not> rejects E tr a" and "\<forall>b. embedPng E b"
  shows "succeeds (exportPage E config slideIndex filename)"
  unfolding exportPage_def Let_def
  by (intro succeeds_then succeeds_bind succeeds_hideUIElements succeeds_takeScreenshot
      succeeds_call succeeds_pushScreenshotFile succeeds_convert_add assms)

lemma succeeds_exportSubSlides:
  assumes "\<forall>tr a. \<not> rejects E tr a" and "\<forall>b. embedPng E b"
  shows "succeeds (exportSubSlides E config slideIndex t startIndex endIndex)"
  unfolding exportSubSlides_def
  by (intro succeeds_for_loop succeeds_then succeeds_exportPage assms)
     (simp add: succeeds_navigateSubSlide succeeds_return assms)

lemma succeeds_resetSubSlides:
  assumes "\<forall>tr a. \<not> rejects E tr a"
  shows "succeeds (resetSubSlides E config t endIndex)"
  unfolding resetSubSlides_def
  by (auto intro!: succeeds_for_loop succeeds_navigateSubSlide assms)

lemma succeeds_exportSlide:
  assumes "\<forall>tr a. \<not> rejects E tr a" and "\<forall>b. embedPng E b"
  shows "succeeds (exportSlide E config slideIndex)"
  unfolding exportSlide_def Let_def
  by (intro succeeds_then succeeds_navigateToSlide assms)
     (auto intro!: succeeds_then succeeds_exportSubSlides succeeds_resetSubSlides
        succeeds_exportPage assms split: option.splits)

lemma succeeds_try_body:
  assumes "\<forall>tr a. \<not> rejects E tr a" and "\<forall>b. embedPng E b"
  shows "succeeds (exportPresentationToPDF_try E config)"
proof -
  have 1: "succeeds createMergedPdf"
    by (simp add: succeeds_def createMergedPdf_def)
  have 2: "succeeds (savePdf E)"
    using assms(1) by (simp add: succeeds_def savePdf_def then_io_def bind_io_def save_def call_def)
  show ?thesis
    unfolding exportPresentationToPDF_try_def
    by (intro succeeds_then succeeds_call succeeds_catch_call succeeds_waitForAnimation
        succeeds_for_loop succeeds_exportSlide 1 2 assms)
qed

lemma succeeds_finally:
  assumes "succeeds m" and "succeeds c"
  shows "succeeds (finally_io m c)"
  unfolding succeeds_def
proof
  fix w
  obtain x w1 where m: "m w = (Inr x, w1)" using succeedsD[OF assms(1)] by blast
  obtain v w2 where "c w1 = (Inr v, w2)" using succeedsD[OF assms(2)] by blast
  with m show "\<exists>r w'. finally_io m c w = (Inr r, w')"
    by (simp add: finally_io_def)
qed

lemma succeeds_ensureDir: "\<forall>tr a. \<not> rejects E tr a \<Longrightarrow> succeeds (ensureDir E dir)"
  unfolding ensureDir_def by (simp add: succeeds_call succeeds_return)

lemma export_run_succeeds:
  assumes nf: "\<forall>tr a. \<not> rejects E tr a" and png: "\<forall>b. embedPng E b"
    and lc: "loadConfig E w = (Inr parsed, w)"
    and up: "probe E (devServerUrl (typed E parsed)) = Responded 200"
  shows "\<exists>w'. exportPresentationToPDF E w = (Inr (), w')"
proof -
  let ?config = "typed E parsed"
  let ?w2 = "w\<lparr>trace := trace w @ [HttpGet (devServerUrl ?config) 2000]\<rparr>"
  let ?rest = "then_io (ensureDir E (OUTPUT_DIR E))
          (then_io (ensureDir E (SCREENSHOTS_DIR E))
          (then_io (call E (Launch (findChromeExecutable E) 60000))
          (then_io (call E NewPage)
          (then_io (emit (SetDefaultTimeout 60000))
          (then_io (emit (SetDefaultNavigationTimeout 60000))
          (then_io (call E (SetViewport (viewportWidth ?config) (viewportHeight ?config)))
          (finally_io (exportPresentationToPDF_try E ?config) (call E CloseBrowser))))))))"
  have "succeeds ?rest"
    by (intro succeeds_then succeeds_ensureDir succeeds_call succeeds_emit succeeds_finally
        succeeds_try_body nf png)
  from succeedsD[OF this, of ?w2] obtain w' where "?rest ?w2 = (Inr (), w')"
    by auto
  moreover have "checkDevServer E (devServerUrl ?config) w = (Inr True, ?w2)"
    using up by (simp add: checkDevServer_def)
  ultimately have "exportPresentationToPDF E w = (Inr (), w')"
    using lc by (simp add: exportPresentationToPDF_def bind_io_def Let_def)
  then show ?thesis by blast
qed

text \<open>
  C1. Let the loader return a configuration that is well formed. Then every run of the
  export that returns has written, as its last action before closing the browser, a PDF
  whose number of pages is the sum over the slides \<open>0\<close> to \<open>totalSlides - 1\<close> of \<open>max + 1\<close> for
  a sub-slide entry, \<open>max\<close> for a step entry and 1 for a slide without an entry. When the
  server answers 200, no call is rejected and every screenshot embeds, the run returns.
\<close>

theorem export_page_count:
  assumes "loadConfig E w = (Inr parsed, w)"
    and "wellFormed (typed E parsed)"
  shows "(\<forall>u w'. exportPresentationToPDF E w = (Inr u, w') \<longrightarrow>
            int (length (mergedPdf w')) = spec_pageCount (typed E parsed)
            \<and> (\<exists>tr. trace w' =
                  tr @ [WriteFile (OUTPUT_FILE E) (Document (mergedPdf w')), CloseBrowser]))
     \<and> ((\<forall>tr a. \<not> rejects E tr a) \<and> (\<forall>b. embedPng E b)
          \<and> probe E (devServerUrl (typed E parsed)) = Responded 200
        \<longrightarrow> (\<exists>w'. exportPresentationToPDF E w = (Inr (), w')))"
proof (intro conjI allI impI)
  fix u w'
  assume run: "exportPresentationToPDF E w = (Inr u, w')"
  from export_run_Inr[OF run assms(1)] obtain wA wB where
    body: "exportPresentationToPDF_try E (typed E parsed) wA = (Inr u, wB)"
    and w': "w' = wB\<lparr>trace := trace wB @ [CloseBrowser]\<rparr>"
    by blast
  from wellFormed_pages_positive[OF assms(2)]
  have "sum_list (map (slidePages (typed E parsed)) [0..totalSlides (typed E parsed) - 1]) \<noteq> 0"
    by (rule less_imp_neq[symmetric])
  with try_body_Inr[OF body] obtain tr where
    len: "length (mergedPdf wB)
            = sum_list (map (slidePages (typed E parsed)) [0..totalSlides (typed E parsed) - 1])"
    and tr: "trace wB = tr @ [WriteFile (OUTPUT_FILE E) (Document (mergedPdf wB))]"
    by blast
  from len w' wellFormed_pageCount[OF assms(2)]
  show "int (length (mergedPdf w')) = spec_pageCount (typed E parsed)"
    by simp
  from tr w'
  show "\<exists>tr. trace w' = tr @ [WriteFile (OUTPUT_FILE E) (Document (mergedPdf w')), CloseBrowser]"
    by simp
next
  assume "(\<forall>tr a. \<not> rejects E tr a) \<and> (\<forall>b. embedPng E b)
          \<and> probe E (devServerUrl (typed E parsed)) = Responded 200"
  then show "\<exists>w'. exportPresentationToPDF E w = (Inr (), w')"
    using export_run_succeeds[OF _ _ assms(1)] by blast
qed

theorem export_page_count_witness:
  "\<exists>w'. exportPresentationToPDF (exampleEnv (Some exampleJson) (Responded 200)) world0 = (Inr (), w')
       \<and> length (mergedPdf w') = 5"
proof -
  let ?E = "exampleEnv (Some exampleJson) (Responded 200)"
  have lc: "loadConfig ?E world0 = (Inr exampleJson, world0)"
    by (simp add: loadConfig_unfold loadConfig_try_def exampleEnv_def exampleJson_def
        configPath_def path_join_project)
  have ty: "typed ?E exampleJson = exampleConfig"
    by (simp add: exampleEnv_def readConfig_exampleJson)
  have wf: "wellFormed (typed ?E exampleJson)"
    unfolding ty
    by (simp add: wellFormed_def exampleConfig_def toString_def digits.simps digitChar_def
        upto.simps)
  note T = export_page_count[OF lc wf]
  from T[THEN conjunct2] obtain w' where
    run: "exportPresentationToPDF ?E world0 = (Inr (), w')"
    by (auto simp: exampleEnv_def)
  have "spec_pageCount exampleConfig = 5"
    by (simp add: spec_pageCount_def exampleConfig_def toString_def digits.simps digitChar_def
        upto.simps)
  with T[THEN conjunct1] run ty have "length (mergedPdf w') = 5"
    by auto
  with run show ?thesis by blast
qed

text \<open>
  Outside the well-formed configurations, a run whose slides give no page at all, as with
  step entries of bound 0 on every slide, writes a document of one blank page.
\<close>

lemma export_blank_page:
  assumes "loadConfig E w = (Inr parsed, w)"
    and "exportPresentationToPDF E w = (Inr u, w')"
    and "sum_list (map (slidePages (typed E parsed)) [0..totalSlides (typed E parsed) - 1]) = 0"
  shows "\<exists>tr. trace w' = tr @ [WriteFile (OUTPUT_FILE E) (Document [BlankPage]), CloseBrowser]"
proof -
  from export_run_Inr[OF assms(2) assms(1)] obtain wA wB where
    body: "exportPresentationToPDF_try E (typed E parsed) wA = (Inr u, wB)"
    and w': "w' = wB\<lparr>trace := trace wB @ [CloseBrowser]\<rparr>"
    by blast
  from try_body_Inr[OF body] assms(3) obtain tr where
    "mergedPdf wB = [BlankPage]"
    and "trace wB = tr @ [WriteFile (OUTPUT_FILE E) (Document (mergedPdf wB))]"
    by blast
  with w' show ?thesis
    by simp
qed

section \<open>The server check: results\<close>

lemma export_server_down:
  assumes "loadConfig E w = (Inr parsed, w)"
    and "probe E (devServerUrl (typed E parsed)) \<noteq> Responded 200"
  shows "\<exists>e. exportPresentationToPDF E w
           = (Inl e, w\<lparr>trace := trace w @ [HttpGet (devServerUrl (typed E parsed)) 2000]\<rparr>)
         \<and> (e = ProcessExit 1 \<or> e = InvalidUrl)"
  using assms
  by (cases "probe E (devServerUrl (typed E parsed))")
     (simp_all add: exportPresentationToPDF_def bind_io_def Let_def checkDevServer_def throw_io_def)

text \<open>
  C4. Let the loader return a configuration. When the probe of its URL times out, ends
  in an error or is answered with a status other than 200, the script run as the main
  module exits with code 1, and the single probe, with its timeout of 2000 ms, is all it
  has done: no directory is made and no browser is launched. Unless \<^verbatim>\<open>http.get\<close> itself
  throws, the check returns the one boolean \<open>False\<close> in all these cases.
\<close>

theorem server_down_aborts_before_launch:
  assumes "loadConfig E w = (Inr parsed, w)"
    and "probe E (devServerUrl (typed E parsed)) \<noteq> Responded 200"
  shows "runAsMain E w
           = (1, w\<lparr>trace := trace w @ [HttpGet (devServerUrl (typed E parsed)) 2000]\<rparr>)
     \<and> (\<forall>path t. Launch path t
            \<notin> set (drop (length (trace w)) (trace (snd (runAsMain E w)))))
     \<and> (probe E (devServerUrl (typed E parsed)) \<noteq> Threw \<longrightarrow>
          checkDevServer E (devServerUrl (typed E parsed)) w
            = (Inr False, w\<lparr>trace := trace w @ [HttpGet (devServerUrl (typed E parsed)) 2000]\<rparr>))"
proof (intro conjI)
  from export_server_down[OF assms] obtain e where
    "exportPresentationToPDF E w
       = (Inl e, w\<lparr>trace := trace w @ [HttpGet (devServerUrl (typed E parsed)) 2000]\<rparr>)"
    and "e = ProcessExit 1 \<or> e = InvalidUrl"
    by blast
  then show "runAsMain E w
      = (1, w\<lparr>trace := trace w @ [HttpGet (devServerUrl (typed E parsed)) 2000]\<rparr>)"
    by (auto simp: runAsMain_def)
  then show "\<forall>path t. Launch path t
      \<notin> set (drop (length (trace w)) (trace (snd (runAsMain E w))))"
    by simp
next
  show "probe E (devServerUrl (typed E parsed)) \<noteq> Threw \<longrightarrow>
          checkDevServer E (devServerUrl (typed E parsed)) w
            = (Inr False, w\<lparr>trace := trace w @ [HttpGet (devServerUrl (typed E parsed)) 2000]\<rparr>)"
    using assms(2)
    by (cases "probe E (devServerUrl (typed E parsed))") (simp_all add: checkDevServer_def)
qed

theorem server_down_aborts_before_launch_witness:
  "runAsMain (exampleEnv (Some exampleJson) (Responded 404)) world0
     = (1, world0\<lparr>trace := [HttpGet ''http://localhost:3000'' 2000]\<rparr>)
   \<and> runAsMain (exampleEnv (Some exampleJson) TimedOut) world0
     = (1, world0\<lparr>trace := [HttpGet ''http://localhost:3000'' 2000]\<rparr>)
   \<and> runAsMain (exampleEnv (Some exampleJson) ErrorEvent) world0
     = (1, world0\<lparr>trace := [HttpGet ''http://localhost:3000'' 2000]\<rparr>)"
proof -
  have lc: "loadConfig (exampleEnv (Some exampleJson) answer) world0 = (Inr exampleJson, world0)"
    for answer
    by (simp add: loadConfig_unfold loadConfig_try_def exampleEnv_def exampleJson_def
        configPath_def path_join_project)
  have 1: "probe (exampleEnv (Some exampleJson) (Responded 404))
             (devServerUrl (typed (exampleEnv (Some exampleJson) (Responded 404)) exampleJson))
           \<noteq> Responded 200"
    by (simp add: exampleEnv_def)
  have 2: "probe (exampleEnv (Some exampleJson) TimedOut)
             (devServerUrl (typed (exampleEnv (Some exampleJson) TimedOut) exampleJson))
           \<noteq> Responded 200"
    by (simp add: exampleEnv_def)
  have 3: "probe (exampleEnv (Some exampleJson) ErrorEvent)
             (devServerUrl (typed (exampleEnv (Some exampleJson) ErrorEvent) exampleJson))
           \<noteq> Responded 200"
    by (simp add: exampleEnv_def)
  have u: "devServerUrl (typed (exampleEnv (Some exampleJson) answer) exampleJson)
             = ''http://localhost:3000''" for answer
    by (simp add: exampleEnv_def readConfig_exampleJson exampleConfig_def)
  from server_down_aborts_before_launch[OF lc 1, THEN conjunct1]
       server_down_aborts_before_launch[OF lc 2, THEN conjunct1]
       server_down_aborts_before_launch[OF lc 3, THEN conjunct1]
  show ?thesis
    by (simp add: u world0_def)
qed

section \<open>The reset after the sub-slides: results\<close>

lemma pushScreenshotFile_keys: "adds keyPresses [] (pushScreenshotFile filepath)"
  by (auto simp: adds_def pushScreenshotFile_def keyPresses_def)

lemma convert_add_keys:
  "adds keyPresses []
     (bind_io (convertImageToPDF E shot) (\<lambda>pdfDoc. then_io (addPages pdfDoc) incrementTotalPages))"
  by (auto simp: adds_def bind_io_def then_io_def convertImageToPDF_def return_io_def throw_io_def
      addPages_def incrementTotalPages_def keyPresses_def split: if_splits)

lemma exportPage_keys: "adds keyPresses [] (exportPage E config slideIndex filename)"
proof -
  have w: "adds keyPresses [] (call E (WriteFile filepath (Image shot)))" for filepath shot
    by (rule quiet_keys[OF performs_call]) simp
  show ?thesis
    unfolding exportPage_def Let_def
    by (intro adds_nil_then adds_nil_bind hideUIElements_keys takeScreenshot_keys w
        pushScreenshotFile_keys convert_add_keys)
qed

lemma concat_after_first:
  "concat (map (\<lambda>j. if startIndex < j then [k] else []) [startIndex..endIndex])
     = replicate (nat (endIndex - startIndex)) k"
proof (cases "startIndex \<le> endIndex")
  case True
  have "map (\<lambda>j. if startIndex < j then [k] else []) [startIndex + 1..endIndex]
      = map (\<lambda>j. [k]) [startIndex + 1..endIndex]"
    by (rule map_cong) auto
  then have "concat (map (\<lambda>j. if startIndex < j then [k] else []) [startIndex + 1..endIndex])
      = replicate (length [startIndex + 1..endIndex]) k"
    by (simp add: map_replicate_const)
  moreover have "[startIndex..endIndex] = startIndex # [startIndex + 1..endIndex]"
    using True by (simp add: upto_rec1)
  ultimately show ?thesis by simp
next
  case False
  then show ?thesis by simp
qed

lemma exportSubSlides_keys:
  "adds keyPresses (replicate (nat (endIndex - startIndex)) ArrowDown)
     (exportSubSlides E config slideIndex t startIndex endIndex)"
proof -
  have body: "adds keyPresses (if startIndex < subIndex then [ArrowDown] else [])
      (then_io (if subIndex > startIndex then navigateSubSlide E down config else return_io ())
         (exportPage E config slideIndex (subSlideFilename slideIndex t subIndex)))" for subIndex
  proof -
    have "adds keyPresses (if startIndex < subIndex then [ArrowDown] else [])
        (if subIndex > startIndex then navigateSubSlide E down config else return_io ())"
      using navigateSubSlide_keys[of down E config] by (simp add: adds_return)
    from adds_then[OF this exportPage_keys] show ?thesis by simp
  qed
  have "adds keyPresses
      (concat (map (\<lambda>j. if startIndex < j then [ArrowDown] else []) [startIndex..endIndex + 1 - 1]))
      (exportSubSlides E config slideIndex t startIndex endIndex)"
    unfolding exportSubSlides_def by (rule adds_for_loop) (rule body)
  then show ?thesis by (simp add: concat_after_first)
qed

lemma resetSubSlides_keys:
  "adds keyPresses (if t = subSlide then replicate (nat endIndex) ArrowUp else [ArrowDown])
     (resetSubSlides E config t endIndex)"
proof (cases "t = subSlide")
  case True
  have "adds keyPresses (concat (replicate (nat (endIndex - 0)) [ArrowUp]))
      (for_loop 0 endIndex (\<lambda>i. navigateSubSlide E up config))"
    using navigateSubSlide_keys[of up E config] by (intro adds_for_loop_const) simp
  moreover have "concat (replicate n [ArrowUp]) = replicate n ArrowUp" for n
    by (induction n) simp_all
  ultimately show ?thesis using True by (simp add: resetSubSlides_def)
next
  case False
  then show ?thesis
    using navigateSubSlide_keys[of down E config] by (simp add: resetSubSlides_def)
qed

text \<open>
  C6. Let a slide have a sub-slide entry. A pass of the slide loop that returns has
  navigated to the slide, exported the sub-states with one ArrowDown press per step
  forward, and then, before it ends, pressed ArrowUp once per step forward when the entry
  is of the zero-based kind (\<open>max\<close> presses for the range from 0 to \<open>max\<close>), and ArrowDown
  exactly once more when it is of the one-based step kind. When no call is rejected and
  every screenshot embeds, the pass returns.
\<close>

theorem reset_after_sub_slides:
  assumes "slidesWithSubSlides config (toString slideIndex) = Some sc"
    and "startIndex = (if slide_type sc = subSlide then 0 else 1)"
  shows "(\<forall>u w'. exportSlide E config slideIndex w = (Inr u, w') \<longrightarrow>
            (\<exists>w1 w2.
               navigateToSlide E slideIndex config w = (Inr (), w1)
               \<and> exportSubSlides E config slideIndex (slide_type sc) startIndex (slide_max sc) w1
                   = (Inr (), w2)
               \<and> resetSubSlides E config (slide_type sc) (slide_max sc) w2 = (Inr u, w')
               \<and> keyPresses w2
                   = keyPresses w1 @ replicate (nat (slide_max sc - startIndex)) ArrowDown
               \<and> keyPresses w'
                   = keyPresses w2
                     @ (if slide_type sc = subSlide then replicate (nat (slide_max sc)) ArrowUp
                        else [ArrowDown])))
     \<and> ((\<forall>tr a. \<not> rejects E tr a) \<and> (\<forall>b. embedPng E b)
        \<longrightarrow> (\<exists>w'. exportSlide E config slideIndex w = (Inr (), w')))"
proof (intro conjI allI impI)
  fix u w'
  assume "exportSlide E config slideIndex w = (Inr u, w')"
  with assms obtain w1 w2 where
    nav: "navigateToSlide E slideIndex config w = (Inr (), w1)"
    and sub: "exportSubSlides E config slideIndex (slide_type sc) startIndex (slide_max sc) w1
                = (Inr (), w2)"
    and reset: "resetSubSlides E config (slide_type sc) (slide_max sc) w2 = (Inr u, w')"
    unfolding exportSlide_def
    by (auto simp: Let_def dest!: then_io_Inr)
  from addsD[OF exportSubSlides_keys sub] addsD[OF resetSubSlides_keys reset] nav sub reset
  show "\<exists>w1 w2.
               navigateToSlide E slideIndex config w = (Inr (), w1)
               \<and> exportSubSlides E config slideIndex (slide_type sc) startIndex (slide_max sc) w1
                   = (Inr (), w2)
               \<and> resetSubSlides E config (slide_type sc) (slide_max sc) w2 = (Inr u, w')
               \<and> keyPresses w2
                   = keyPresses w1 @ replicate (nat (slide_max sc - startIndex)) ArrowDown
               \<and> keyPresses w'
                   = keyPresses w2
                     @ (if slide_type sc = subSlide then replicate (nat (slide_max sc)) ArrowUp
                        else [ArrowDown])"
    by blast
next
  assume "(\<forall>tr a. \<not> rejects E tr a) \<and> (\<forall>b. embedPng E b)"
  then have "succeeds (exportSlide E config slideIndex)"
    by (intro succeeds_exportSlide) simp_all
  from succeedsD[OF this, of w] show "\<exists>w'. exportSlide E config slideIndex w = (Inr (), w')"
    by simp
qed

theorem reset_after_sub_slides_witness:
  "(\<exists>w1 w'. navigateToSlide (exampleEnv None (Responded 200)) 1 exampleConfig world0 = (Inr (), w1)
       \<and> exportSlide (exampleEnv None (Responded 200)) exampleConfig 1 world0 = (Inr (), w')
       \<and> keyPresses w' = keyPresses w1 @ [ArrowDown, ArrowDown] @ [ArrowUp, ArrowUp])
   \<and> (\<exists>w1 w'. navigateToSlide (exampleEnv None (Responded 200)) 1
          (exampleConfig\<lparr>slidesWithSubSlides := [''1'' \<mapsto> \<lparr>slide_type = step, slide_max = 3\<rparr>]\<rparr>)
          world0 = (Inr (), w1)
       \<and> exportSlide (exampleEnv None (Responded 200))
          (exampleConfig\<lparr>slidesWithSubSlides := [''1'' \<mapsto> \<lparr>slide_type = step, slide_max = 3\<rparr>]\<rparr>)
          1 world0 = (Inr (), w')
       \<and> keyPresses w' = keyPresses w1 @ [ArrowDown, ArrowDown] @ [ArrowDown])"
proof
  let ?E = "exampleEnv None (Responded 200)"
  let ?sc = "\<lparr>slide_type = subSlide, slide_max = 2\<rparr>"
  have e: "slidesWithSubSlides exampleConfig (toString 1) = Some ?sc"
    by (simp add: exampleConfig_def toString_def digits.simps digitChar_def)
  have s: "(0::int) = (if slide_type ?sc = subSlide then 0 else 1)"
    by simp
  note T = reset_after_sub_slides[OF e s, of ?E world0]
  from T[THEN conjunct2] obtain w' where run: "exportSlide ?E exampleConfig 1 world0 = (Inr (), w')"
    by (auto simp: exampleEnv_def)
  with T[THEN conjunct1] obtain w1 w2 where
    "navigateToSlide ?E 1 exampleConfig world0 = (Inr (), w1)"
    and "keyPresses w2 = keyPresses w1 @ replicate (nat (2 - 0)) ArrowDown"
    and "keyPresses w' = keyPresses w2 @ replicate (nat 2) ArrowUp"
    by auto
  with run show "\<exists>w1 w'. navigateToSlide ?E 1 exampleConfig world0 = (Inr (), w1)
       \<and> exportSlide ?E exampleConfig 1 world0 = (Inr (), w')
       \<and> keyPresses w' = keyPresses w1 @ [ArrowDown, ArrowDown] @ [ArrowUp, ArrowUp]"
    by (auto simp: numeral_2_eq_2)
next
  let ?E = "exampleEnv None (Responded 200)"
  let ?sc = "\<lparr>slide_type = step, slide_max = 3\<rparr>"
  let ?config = "exampleConfig\<lparr>slidesWithSubSlides := [''1'' \<mapsto> ?sc]\<rparr>"
  have e: "slidesWithSubSlides ?config (toString 1) = Some ?sc"
    by (simp add: toString_def digits.simps digitChar_def)
  have s: "(1::int) = (if slide_type ?sc = subSlide then 0 else 1)"
    by simp
  note T = reset_after_sub_slides[OF e s, of ?E world0]
  from T[THEN conjunct2] obtain w' where run: "exportSlide ?E ?config 1 world0 = (Inr (), w')"
    by (auto simp: exampleEnv_def)
  with T[THEN conjunct1] obtain w1 w2 where
    "navigateToSlide ?E 1 ?config world0 = (Inr (), w1)"
    and "keyPresses w2 = keyPresses w1 @ replicate (nat (3 - 1)) ArrowDown"
    and "keyPresses w' = keyPresses w2 @ [ArrowDown]"
    by auto
  with run show "\<exists>w1 w'. navigateToSlide ?E 1 ?config world0 = (Inr (), w1)
       \<and> exportSlide ?E ?config 1 world0 = (Inr (), w')
       \<and> keyPresses w' = keyPresses w1 @ [ArrowDown, ArrowDown] @ [ArrowDown]"
    by (auto simp: numeral_2_eq_2)
qed

section \<open>The slide loop and entries out of range: results\<close>

lemma for_loop_cong:
  assumes "\<And>j. i \<le> j \<Longrightarrow> j < n \<Longrightarrow> body j = body' j"
  shows "for_loop i n body w = for_loop i n body' w"
  using assms
proof (induction i n body w rule: for_loop.induct)
  case (1 i n body w)
  show ?case
  proof (cases "i < n")
    case True
    have b: "body i = body' i" using "1.prems" True by simp
    have "for_loop (i + 1) n body w1 = for_loop (i + 1) n body' w1"
      if "body i w = (Inr u, w1)" for u w1
      using "1.IH"[OF True that[symmetric] refl] "1.prems" by simp
    then show ?thesis
      using True b
      by (subst for_loop.simps, subst (2) for_loop.simps)
         (auto split: prod.splits sum.splits)
  next
    case False
    then show ?thesis by (simp add: for_loop.simps)
  qed
qed

lemma for_loop_sequence: "for_loop i n body w = sequence_io (map body [i..n - 1]) w"
proof (induction i n body w rule: for_loop.induct)
  case (1 i n body w)
  show ?case
  proof (cases "i < n")
    case True
    then have l: "[i..n - 1] = i # [i + 1..n - 1]"
      by (simp add: upto_rec1)
    have "for_loop (i + 1) n body w1 = sequence_io (map body [i + 1..n - 1]) w1"
      if "body i w = (Inr u, w1)" for u w1
      using "1.IH"[OF True that[symmetric] refl] by simp
    then show ?thesis
      using True
      by (subst for_loop.simps)
         (auto simp: l then_io_def bind_io_def split: prod.splits sum.splits)
  next
    case False
    then show ?thesis by (simp add: for_loop.simps return_io_def)
  qed
qed

lemma digitChar_code: "d < 10 \<Longrightarrow> of_char (digitChar d) = 48 + d"
proof -
  assume "d < 10"
  then have "d \<in> {0, 1, 2, 3, 4, 5, 6, 7, 8, 9}"
    by auto
  then show ?thesis
    by (auto simp: digitChar_def)
qed

lemma digitChar_inj:
  assumes "a < 10" and "b < 10" and "digitChar a = digitChar b"
  shows "a = b"
proof -
  have "48 + a = (of_char (digitChar a) :: nat)"
    using digitChar_code[OF assms(1)] by (rule sym)
  also have "\<dots> = of_char (digitChar b)"
    by (simp only: assms(3))
  also have "\<dots> = 48 + b"
    by (rule digitChar_code[OF assms(2)])
  finally show ?thesis by (simp only: add_left_cancel)
qed

lemma digits_nonempty: "digits n \<noteq> []"
  by (subst digits.simps) simp

lemma digits_inj: "digits n = digits m \<Longrightarrow> n = m"
proof (induction n arbitrary: m rule: digits.induct)
  case (1 n)
  show ?case
  proof (cases "n < 10")
    case n: True
    show ?thesis
    proof (cases "m < 10")
      case True
      with n "1.prems" show ?thesis
        by (auto simp: digits.simps[of n] digits.simps[of m] dest: digitChar_inj)
    next
      case False
      with n "1.prems" digits_nonempty[of "m div 10"] show ?thesis
        by (simp add: digits.simps[of n] digits.simps[of m])
    qed
  next
    case n: False
    show ?thesis
    proof (cases "m < 10")
      case True
      with n "1.prems" digits_nonempty[of "n div 10"] show ?thesis
        by (simp add: digits.simps[of n] digits.simps[of m])
    next
      case False
      with n "1.prems" have d: "digits (n div 10) = digits (m div 10)"
        and c: "digitChar (n mod 10) = digitChar (m mod 10)"
        by (simp_all add: digits.simps[of n] digits.simps[of m])
      from "1.IH"[OF n d] have "n div 10 = m div 10" .
      moreover from c have "n mod 10 = m mod 10"
        by (intro digitChar_inj) simp_all
      ultimately show ?thesis
        by (metis div_mult_mod_eq)
    qed
  qed
qed

lemma toString_inj: "0 \<le> i \<Longrightarrow> 0 \<le> k \<Longrightarrow> toString i = toString k \<Longrightarrow> i = k"
  by (auto simp: toString_def dest: digits_inj)

lemma waitForAnimation_ignores:
  "waitForAnimation E (config\<lparr>slidesWithSubSlides := m\<rparr>) delay = waitForAnimation E config delay"
  by (simp add: waitForAnimation_def)

lemma navigateToSlide_ignores:
  "navigateToSlide E i (config\<lparr>slidesWithSubSlides := m\<rparr>) = navigateToSlide E i config"
  by (simp add: navigateToSlide_def waitForAnimation_ignores cong: option.case_cong if_cong)

lemma navigateSubSlide_ignores:
  "navigateSubSlide E dir (config\<lparr>slidesWithSubSlides := m\<rparr>) = navigateSubSlide E dir config"
  by (simp add: navigateSubSlide_def waitForAnimation_ignores)

lemma exportPage_ignores:
  "exportPage E (config\<lparr>slidesWithSubSlides := m\<rparr>) i filename = exportPage E config i filename"
  by (simp add: exportPage_def hideUIElements_def takeScreenshot_def waitForSlideContent_def
      waitForAnimation_ignores cong: option.case_cong if_cong)

lemma exportSubSlides_ignores:
  "exportSubSlides E (config\<lparr>slidesWithSubSlides := m\<rparr>) i t a b = exportSubSlides E config i t a b"
  by (simp add: exportSubSlides_def navigateSubSlide_ignores exportPage_ignores cong: if_cong)

lemma resetSubSlides_ignores:
  "resetSubSlides E (config\<lparr>slidesWithSubSlides := m\<rparr>) t b = resetSubSlides E config t b"
  by (simp add: resetSubSlides_def navigateSubSlide_ignores cong: if_cong)

lemma exportSlide_agree:
  "m (toString i) = slidesWithSubSlides config (toString i) \<Longrightarrow>
     exportSlide E (config\<lparr>slidesWithSubSlides := m\<rparr>) i = exportSlide E config i"
  by (simp add: exportSlide_def navigateToSlide_ignores exportPage_ignores exportSubSlides_ignores
      resetSubSlides_ignores cong: option.case_cong if_cong)

text \<open>
  C8. The slide loop runs the passes for the indices \<open>0\<close> to \<open>totalSlides - 1\<close>, in this order
  and no other. An entry of the sub-slide mapping under the key of an index at or beyond
  \<open>totalSlides\<close> is under none of the keys the loop looks up, and the export with this entry
  is the export without it: nothing validates it and nothing navigates to it.
\<close>

theorem out_of_range_entry_inert:
  assumes "totalSlides config \<le> k"
  shows "for_loop 0 (totalSlides config) (exportSlide E config)
           = sequence_io (map (exportSlide E config) [0..totalSlides config - 1])
     \<and> (\<forall>i\<in>set [0..totalSlides config - 1]. toString i \<noteq> toString k)
     \<and> exportPresentationToPDF_try E
          (config\<lparr>slidesWithSubSlides := (slidesWithSubSlides config)(toString k \<mapsto> sc)\<rparr>)
         = exportPresentationToPDF_try E config"
proof (intro conjI)
  show "for_loop 0 (totalSlides config) (exportSlide E config)
           = sequence_io (map (exportSlide E config) [0..totalSlides config - 1])"
    by (rule ext) (rule for_loop_sequence)
next
  show keys: "\<forall>i\<in>set [0..totalSlides config - 1]. toString i \<noteq> toString k"
  proof
    fix i
    assume "i \<in> set [0..totalSlides config - 1]"
    with assms have "0 \<le> i" and "i < k" by simp_all
    then show "toString i \<noteq> toString k"
      using toString_inj[of i k] by auto
  qed
  let ?config = "config\<lparr>slidesWithSubSlides := (slidesWithSubSlides config)(toString k \<mapsto> sc)\<rparr>"
  have same: "exportSlide E ?config j = exportSlide E config j"
    if "0 \<le> j" and "j < totalSlides config" for j
    using that keys by (intro exportSlide_agree) simp
  have "for_loop 0 (totalSlides config) (exportSlide E ?config) w
      = for_loop 0 (totalSlides config) (exportSlide E config) w" for w
    by (rule for_loop_cong) (rule same)
  then have "for_loop 0 (totalSlides config) (exportSlide E ?config)
      = for_loop 0 (totalSlides config) (exportSlide E config)"
    by (rule ext)
  then show "exportPresentationToPDF_try E ?config = exportPresentationToPDF_try E config"
    by (simp add: exportPresentationToPDF_try_def waitForAnimation_ignores)
qed

theorem out_of_range_entry_inert_witness:
  "for_loop 0 3 (exportSlide (exampleEnv None (Responded 200)) exampleConfig)
     = sequence_io [exportSlide (exampleEnv None (Responded 200)) exampleConfig 0,
                    exportSlide (exampleEnv None (Responded 200)) exampleConfig 1,
                    exportSlide (exampleEnv None (Responded 200)) exampleConfig 2]
   \<and> exportPresentationToPDF_try (exampleEnv None (Responded 200))
        (exampleConfig\<lparr>slidesWithSubSlides :=
           (slidesWithSubSlides exampleConfig)(toString 7 \<mapsto> \<lparr>slide_type = step, slide_max = 5\<rparr>)\<rparr>)
      = exportPresentationToPDF_try (exampleEnv None (Responded 200)) exampleConfig"
proof -
  have ts: "totalSlides exampleConfig = 3"
    by (simp add: exampleConfig_def)
  then have le: "totalSlides exampleConfig \<le> 7"
    by simp
  have l: "[0..2::int] = [0, 1, 2]"
    by (simp add: upto.simps)
  from out_of_range_entry_inert[OF le, of "exampleEnv None (Responded 200)"
      "\<lparr>slide_type = step, slide_max = 5\<rparr>"]
  show ?thesis
    by (simp add: ts l)
qed

section \<open>The image-fix script: results\<close>

lemma whiteSpacePrefix_0x89: "whiteSpacePrefix (CHR 0x89 # rest) = None"
  by (simp add: whiteSpacePrefix_def whiteSpace_def)

lemma not_isWhiteSpace_0x89: "\<not> isWhiteSpace [CHR 0x89]"
  by (simp add: isWhiteSpace_def whiteSpace_def)

lemma rev_dropWhile_rev_Cons:
  assumes "\<not> P x"
  shows "\<exists>ys. rev (dropWhile P (rev (x # ts))) = x # ys"
proof (cases "\<forall>t\<in>set (rev ts). P t")
  case True
  with assms have "dropWhile P (rev ts @ [x]) = [x]"
    by (simp add: dropWhile_append)
  then show ?thesis by simp
next
  case False
  then have "dropWhile P (rev ts @ [x]) = dropWhile P (rev ts) @ [x]"
    by (auto simp: dropWhile_append)
  then show ?thesis by simp
qed

lemma trim_0x89: "\<exists>ys. trim (CHR 0x89 # rest) = CHR 0x89 # ys"
proof -
  have "jsChars (CHR 0x89 # rest) = [CHR 0x89] # jsChars rest"
    by (subst jsChars.simps) (simp add: whiteSpacePrefix_0x89)
  then have "dropWhile isWhiteSpace (jsChars (CHR 0x89 # rest)) = [CHR 0x89] # jsChars rest"
    by (simp add: not_isWhiteSpace_0x89)
  moreover from rev_dropWhile_rev_Cons
      [where P = isWhiteSpace and x = "[CHR 0x89]" and ts = "jsChars rest",
       OF not_isWhiteSpace_0x89]
  obtain ys where "rev (dropWhile isWhiteSpace (rev ([CHR 0x89] # jsChars rest))) = [CHR 0x89] # ys"
    by blast
  ultimately show ?thesis
    by (simp add: trim_def)
qed

lemma png_first_byte: "take 8 bytes = pngMagicBytes \<Longrightarrow> \<exists>rest. bytes = CHR 0x89 # rest"
  by (cases bytes) (auto simp: pngMagicBytes_def)

lemma binary_png_not_base64:
  assumes "files p = Some (File bytes)" and "take 8 bytes = pngMagicBytes"
  shows "\<not> isBase64Encoded files p"
proof -
  from png_first_byte[OF assms(2)] obtain rest where b: "bytes = CHR 0x89 # rest"
    by blast
  from trim_0x89[of rest] obtain ys where "trim (CHR 0x89 # rest) = CHR 0x89 # ys"
    by blast
  with assms(1) b show ?thesis
    by (simp add: isBase64Encoded_def fs_readFileSync_def)
qed

lemma processFile_cases:
  "(\<exists>reason. processFile dec files p = (files, NotProcessed reason))
   \<or> (\<exists>content buffer. files p = Some (File content) \<and> take 8 buffer = pngMagicBytes
        \<and> processFile dec files p = (files(p \<mapsto> File buffer), Processed (length buffer)))"
  by (auto simp: processFile_def fs_readFileSync_def fs_writeFileSync_def
      split: sum.splits option.splits node.splits)

lemma processFile_again:
  "fst (processFile dec (fst (processFile dec files p)) p) = fst (processFile dec files p)"
proof -
  from processFile_cases[of dec files p]
  consider (rejected) reason where "processFile dec files p = (files, NotProcessed reason)"
    | (written) buffer where "take 8 buffer = pngMagicBytes"
        and "processFile dec files p = (files(p \<mapsto> File buffer), Processed (length buffer))"
    by blast
  then show ?thesis
  proof cases
    case rejected
    then show ?thesis by simp
  next
    case written
    have "\<not> isBase64Encoded (files(p \<mapsto> File buffer)) p"
      by (rule binary_png_not_base64[of _ _ buffer]) (simp_all add: written(1))
    then have "processFile dec (files(p \<mapsto> File buffer)) p
        = (files(p \<mapsto> File buffer), NotProcessed ''Not base64-encoded'')"
      by (simp add: processFile_def)
    with written(2) show ?thesis by simp
  qed
qed

text \<open>
  C5. A file that passes the prefix check and whose decoded bytes do not begin with the
  PNG signature is rejected, and the file system is left as it was; so it is after every
  rejection. A file that already holds a binary PNG is not taken for base64 text, and
  processing it changes nothing. Processing a file a second time leaves the file system
  as the first time left it.
\<close>

theorem processFile_idempotent:
  "(isBase64Encoded files p \<and> fs_readFileSync files p = Inr content
      \<and> decodeBase64ToBuffer fromBase64 content = Inr buffer
      \<and> take 8 buffer \<noteq> pngMagicBytes
    \<longrightarrow> processFile fromBase64 files p
          = (files, NotProcessed ''Decoded content is not a valid PNG''))
   \<and> (\<forall>reason. snd (processFile fromBase64 files p) = NotProcessed reason
        \<longrightarrow> fst (processFile fromBase64 files p) = files)
   \<and> (files p = Some (File bytes) \<and> take 8 bytes = pngMagicBytes
        \<longrightarrow> processFile fromBase64 files p = (files, NotProcessed ''Not base64-encoded''))
   \<and> fst (processFile fromBase64 (fst (processFile fromBase64 files p)) p)
        = fst (processFile fromBase64 files p)"
proof (intro conjI impI allI)
  assume "isBase64Encoded files p \<and> fs_readFileSync files p = Inr content
      \<and> decodeBase64ToBuffer fromBase64 content = Inr buffer
      \<and> take 8 buffer \<noteq> pngMagicBytes"
  then show "processFile fromBase64 files p
      = (files, NotProcessed ''Decoded content is not a valid PNG'')"
    by (simp add: processFile_def)
next
  fix reason
  assume "snd (processFile fromBase64 files p) = NotProcessed reason"
  with processFile_cases[of fromBase64 files p]
  show "fst (processFile fromBase64 files p) = files"
    by auto
next
  assume "files p = Some (File bytes) \<and> take 8 bytes = pngMagicBytes"
  then have "\<not> isBase64Encoded files p"
    by (intro binary_png_not_base64[of files p bytes]) simp_all
  then show "processFile fromBase64 files p = (files, NotProcessed ''Not base64-encoded'')"
    by (simp add: processFile_def)
next
  show "fst (processFile fromBase64 (fst (processFile fromBase64 files p)) p)
        = fst (processFile fromBase64 files p)"
    by (rule processFile_again)
qed


lemma example_a_base64: "isBase64Encoded exampleFiles ''/site/public/assets/a.png''"
  by (simp add: isBase64Encoded_def fs_readFileSync_def exampleFiles_def trim_def jsChars.simps
      whiteSpacePrefix_def whiteSpace_def isWhiteSpace_def)

theorem processFile_idempotent_witness:
  "processFile decodesToOther exampleFiles ''/site/public/assets/a.png''
     = (exampleFiles, NotProcessed ''Decoded content is not a valid PNG'')
   \<and> processFile decodesToPng exampleFiles ''/site/public/assets/b.png''
     = (exampleFiles, NotProcessed ''Not base64-encoded'')
   \<and> fst (processFile decodesToPng exampleFiles ''/site/public/assets/a.png'')
     = exampleFiles(''/site/public/assets/a.png'' \<mapsto> File (pngMagicBytes @ ''IHDR''))
   \<and> fst (processFile decodesToPng
             (fst (processFile decodesToPng exampleFiles ''/site/public/assets/a.png''))
             ''/site/public/assets/a.png'')
     = exampleFiles(''/site/public/assets/a.png'' \<mapsto> File (pngMagicBytes @ ''IHDR''))"
proof -
  let ?a = "''/site/public/assets/a.png''"
  let ?b = "''/site/public/assets/b.png''"
  note T = processFile_idempotent
  have r: "fs_readFileSync exampleFiles ?a = Inr ''iVBORw0KGgoAAAANSUhEUg==''"
    by (simp add: fs_readFileSync_def exampleFiles_def)
  have d: "decodeBase64ToBuffer decodesToOther ''iVBORw0KGgoAAAANSUhEUg=='' = Inr ''GIF89a''"
    by (simp add: decodeBase64ToBuffer_def decodesToOther_def)
  have n: "take 8 ''GIF89a'' \<noteq> pngMagicBytes"
    by (simp add: pngMagicBytes_def)
  have 1: "processFile decodesToOther exampleFiles ?a
     = (exampleFiles, NotProcessed ''Decoded content is not a valid PNG'')"
    using T[of exampleFiles ?a "''iVBORw0KGgoAAAANSUhEUg==''" decodesToOther "''GIF89a''",
        THEN conjunct1] example_a_base64 r d n
    by blast
  have b: "exampleFiles ?b = Some (File (pngMagicBytes @ ''IHDR''))"
    by (simp add: exampleFiles_def)
  have m: "take 8 (pngMagicBytes @ ''IHDR'') = pngMagicBytes"
    by (simp add: pngMagicBytes_def)
  have 2: "processFile decodesToPng exampleFiles ?b
     = (exampleFiles, NotProcessed ''Not base64-encoded'')"
    using T[of exampleFiles ?b _ decodesToPng _ "pngMagicBytes @ ''IHDR''",
        THEN conjunct2, THEN conjunct2, THEN conjunct1] b m
    by blast
  have 3: "fst (processFile decodesToPng exampleFiles ?a)
     = exampleFiles(?a \<mapsto> File (pngMagicBytes @ ''IHDR''))"
    using example_a_base64 r m
    by (simp add: processFile_def decodeBase64ToBuffer_def decodesToPng_def fs_writeFileSync_def
        exampleFiles_def)
  have 4: "fst (processFile decodesToPng (fst (processFile decodesToPng exampleFiles ?a)) ?a)
     = fst (processFile decodesToPng exampleFiles ?a)"
    using T[of exampleFiles ?a _ decodesToPng, THEN conjunct2, THEN conjunct2, THEN conjunct2]
    by blast
  from 1 2 3 4 show ?thesis
    by (simp only:)
qed

section \<open>The exit code of the image-fix script: results\<close>

lemma processFile_isFile: "isFile (fst (processFile dec files p)) q = isFile files q"
  using processFile_cases[of dec files p]
  by (auto simp: isFile_def split: if_splits)

lemma processFiles_isFile:
  "isFile (fst (processFiles dec ps (files, c))) q = isFile files q"
proof (induction ps arbitrary: files c)
  case Nil
  then show ?case by simp
next
  case (Cons p ps)
  obtain files' r where pf: "processFile dec files p = (files', r)"
    by (cases "processFile dec files p")
  have "isFile files' q = isFile files q"
    using processFile_isFile[of dec files p q] pf by simp
  with Cons.IH pf show ?case
    by (cases r) simp_all
qed

text \<open>Processing a file changes the bytes of that file and nothing else.\<close>

lemma processFile_other: "q \<noteq> p \<Longrightarrow> fst (processFile dec files p) q = files q"
  using processFile_cases[of dec files p] by auto

lemma processFile_local:
  "files' p = files p \<Longrightarrow> snd (processFile dec files' p) = snd (processFile dec files p)"
  by (simp add: processFile_def isBase64Encoded_def fs_readFileSync_def fs_writeFileSync_def
      split: sum.splits option.splits node.splits)

lemma findPngFiles_processFile:
  "findPngFiles (fst (processFile dec files p)) dir = findPngFiles files dir"
proof -
  from processFile_cases[of dec files p]
  consider (rejected) reason where "processFile dec files p = (files, NotProcessed reason)"
    | (written) content buffer where "files p = Some (File content)"
        and "processFile dec files p = (files(p \<mapsto> File buffer), Processed (length buffer))"
    by blast
  then show ?thesis
  proof cases
    case rejected
    then show ?thesis by simp
  next
    case written
    have "isFile (files(p \<mapsto> File buffer)) q = isFile files q" for q
      using written(1) by (simp add: isFile_def)
    with written show ?thesis
      by (auto simp: findPngFiles_def fs_existsSync_def split: option.splits node.splits)
  qed
qed

lemma findPngFiles_processFiles:
  "findPngFiles (fst (processFiles dec ps (files, c))) dir = findPngFiles files dir"
proof (induction ps arbitrary: files c)
  case Nil
  then show ?case by simp
next
  case (Cons p ps)
  obtain files' r where pf: "processFile dec files p = (files', r)"
    by (cases "processFile dec files p")
  have "findPngFiles files' dir = findPngFiles files dir"
    using findPngFiles_processFile[of dec files p dir] pf by simp
  with Cons.IH pf show ?case
    by (cases r) simp_all
qed

lemma scannedFiles_processFiles:
  "scannedFiles projectRoot dirs (fst (processFiles dec ps (files, c)))
     = scannedFiles projectRoot dirs files"
  by (simp add: scannedFiles_def findPngFiles_processFiles)

lemma processFiles_append:
  "processFiles dec (ps @ qs) st = processFiles dec qs (processFiles dec ps st)"
proof (induction ps arbitrary: st)
  case Nil
  then show ?case by simp
next
  case (Cons p ps)
  obtain files c where st: "st = (files, c)"
    by (cases st)
  obtain files' r where pf: "processFile dec files p = (files', r)"
    by (cases "processFile dec files p")
  from Cons.IH st pf show ?case
    by (cases r) simp_all
qed

text \<open>The counters count the results, each result in one counter.\<close>

lemma processFiles_counts:
  "snd (processFiles dec ps (files, c))
     = \<lparr>totalProcessed = totalProcessed c + length (filter decoded (fileResults dec ps files)),
        totalSkipped = totalSkipped c + length (filter skipped (fileResults dec ps files)),
        totalErrors = totalErrors c + length (filter failed (fileResults dec ps files))\<rparr>"
proof (induction ps arbitrary: files c)
  case Nil
  then show ?case by simp
next
  case (Cons p ps)
  obtain files' r where pf: "processFile dec files p = (files', r)"
    by (cases "processFile dec files p")
  show ?case
  proof (cases r)
    case (Processed n)
    with pf Cons.IH[of files' "c\<lparr>totalProcessed := totalProcessed c + 1\<rparr>"] show ?thesis
      by simp
  next
    case (NotProcessed reason)
    show ?thesis
    proof (cases "reason = ''Not base64-encoded''")
      case True
      with NotProcessed pf Cons.IH[of files' "c\<lparr>totalSkipped := totalSkipped c + 1\<rparr>"]
      show ?thesis by simp
    next
      case False
      with NotProcessed pf Cons.IH[of files' "c\<lparr>totalErrors := totalErrors c + 1\<rparr>"]
      show ?thesis by simp
    qed
  qed
qed

text \<open>Files that are processed once are counted by what they hold before the scan.\<close>

lemma fileResults_distinct:
  assumes "distinct ps" and "\<forall>p\<in>set ps. files' p = files p"
  shows "fileResults dec ps files' = map (\<lambda>p. snd (processFile dec files p)) ps"
  using assms
proof (induction ps arbitrary: files')
  case Nil
  then show ?case by simp
next
  case (Cons p ps)
  from Cons.prems have "files' p = files p"
    by simp
  then have head: "snd (processFile dec files' p) = snd (processFile dec files p)"
    by (rule processFile_local)
  have "\<forall>q\<in>set ps. fst (processFile dec files' p) q = files q"
  proof
    fix q assume q: "q \<in> set ps"
    with Cons.prems have "q \<noteq> p" and "files' q = files q"
      by auto
    with processFile_other[of q p dec files'] show "fst (processFile dec files' p) q = files q"
      by simp
  qed
  with Cons.IH Cons.prems(1) have "fileResults dec ps (fst (processFile dec files' p))
      = map (\<lambda>p. snd (processFile dec files p)) ps"
    by simp
  with head show ?case by simp
qed

lemma findPngFiles_directory:
  "\<not> isFile files dir \<Longrightarrow> \<exists>pngs. findPngFiles files dir = Inr pngs"
  by (auto simp: findPngFiles_def isFile_def fs_existsSync_def split: option.splits node.splits)

lemma findPngFiles_missing: "\<not> fs_existsSync files dir \<Longrightarrow> findPngFiles files dir = Inr []"
  by (simp add: findPngFiles_def)

lemma findPngFiles_regular_file:
  "isFile files dir \<Longrightarrow> fs_existsSync files dir \<and> (\<exists>message. findPngFiles files dir = Inl message)"
  by (auto simp: findPngFiles_def isFile_def fs_existsSync_def split: option.splits node.splits)

text \<open>
  Where no asset path holds a regular file, the scan processes the PNG files of the asset
  directories as one list.
\<close>

lemma scanDirs_completes:
  "\<forall>dir\<in>set dirs. \<not> isFile files (path_join projectRoot dir)
     \<Longrightarrow> scanDirs dec projectRoot dirs (files, c)
           = (None, processFiles dec (scannedFiles projectRoot dirs files) (files, c))"
proof (induction dirs arbitrary: files c)
  case Nil
  then show ?case by (simp add: scannedFiles_def)
next
  case (Cons dir dirs)
  from Cons.prems findPngFiles_directory[of files "path_join projectRoot dir"]
  obtain pngs where f: "findPngFiles files (path_join projectRoot dir) = Inr pngs"
    by auto
  obtain files' c' where p: "processFiles dec pngs (files, c) = (files', c')"
    by (cases "processFiles dec pngs (files, c)")
  have split: "scannedFiles projectRoot (dir # dirs) files = pngs @ scannedFiles projectRoot dirs files"
    using f by (simp add: scannedFiles_def)
  have same: "scannedFiles projectRoot dirs files' = scannedFiles projectRoot dirs files"
    using scannedFiles_processFiles[of projectRoot dirs dec pngs files c] p by simp
  have "\<forall>d\<in>set dirs. \<not> isFile files' (path_join projectRoot d)"
    using Cons.prems processFiles_isFile[of dec pngs files c] p by simp
  from Cons.IH[OF this, of c']
  have rest: "scanDirs dec projectRoot dirs (files', c')
      = (None, processFiles dec (scannedFiles projectRoot dirs files) (files', c'))"
    by (simp only: same)
  show ?case
  proof (cases "fs_existsSync files (path_join projectRoot dir)")
    case False
    with f have "pngs = []"
      by (simp add: findPngFiles_missing)
    with p have "files' = files" "c' = c"
      by simp_all
    with False rest split \<open>pngs = []\<close> show ?thesis
      by simp
  next
    case True
    with f p rest split show ?thesis
      by (simp add: processFiles_append)
  qed
qed

text \<open>Where an asset path holds a regular file, the scan ends with the error of reading it.\<close>

lemma scanDirs_regular_file:
  "\<exists>dir\<in>set dirs. isFile files (path_join projectRoot dir)
     \<Longrightarrow> \<exists>message files' c'. scanDirs dec projectRoot dirs (files, c) = (Some message, files', c')"
proof (induction dirs arbitrary: files c)
  case Nil
  then show ?case by simp
next
  case (Cons dir dirs)
  show ?case
  proof (cases "isFile files (path_join projectRoot dir)")
    case True
    from findPngFiles_regular_file[OF this] show ?thesis
      by auto
  next
    case False
    with Cons.prems have later: "\<exists>d\<in>set dirs. isFile files (path_join projectRoot d)"
      by simp
    from False findPngFiles_directory[of files "path_join projectRoot dir"]
    obtain pngs where f: "findPngFiles files (path_join projectRoot dir) = Inr pngs"
      by auto
    obtain files' c' where p: "processFiles dec pngs (files, c) = (files', c')"
      by (cases "processFiles dec pngs (files, c)")
    from later have "\<exists>d\<in>set dirs. isFile files' (path_join projectRoot d)"
      using processFiles_isFile[of dec pngs files c] p by simp
    from Cons.IH[OF this, of c'] Cons.IH[OF later, of c] f p show ?thesis
      by (cases "fs_existsSync files (path_join projectRoot dir)") simp_all
  qed
qed

lemma scanDirs_missing:
  "\<forall>dir\<in>set dirs. \<not> fs_existsSync files (path_join projectRoot dir)
     \<Longrightarrow> scanDirs dec projectRoot dirs (files, c) = (None, files, c)"
  by (induction dirs) simp_all

lemma main_completes:
  assumes "\<forall>dir\<in>set ASSET_DIRS. \<not> isFile files (path_join projectRoot dir)"
  shows "\<exists>files'. main dec projectRoot files
           = (files', tally (fileResults dec (scannedFiles projectRoot ASSET_DIRS files) files), Exit 0)"
proof -
  let ?zero = "\<lparr>totalProcessed = 0, totalSkipped = 0, totalErrors = 0\<rparr>"
  let ?pngs = "scannedFiles projectRoot ASSET_DIRS files"
  obtain files' c' where p: "processFiles dec ?pngs (files, ?zero) = (files', c')"
    by (cases "processFiles dec ?pngs (files, ?zero)")
  from processFiles_counts[of dec ?pngs files ?zero] p
  have "c' = tally (fileResults dec ?pngs files)"
    by (simp add: tally_def)
  with scanDirs_completes[OF assms, of dec ?zero] p show ?thesis
    by (simp add: main_def)
qed

lemma main_uncaught:
  assumes "\<exists>dir\<in>set ASSET_DIRS. isFile files (path_join projectRoot dir)"
  shows "\<exists>files' c message. main dec projectRoot files = (files', c, Uncaught message)"
  using scanDirs_regular_file[OF assms, of dec "\<lparr>totalProcessed = 0, totalSkipped = 0, totalErrors = 0\<rparr>"]
  by (auto simp: main_def)

text \<open>The paths of the example project; its root is given with a slash at its end.\<close>

lemma path_join_site:
  "path_join ''/site/'' ''public/assets'' = ''/site/public/assets''"
  "path_join ''/site/'' ''src/assets'' = ''/site/src/assets''"
  "path_join ''/site/'' ''build/assets'' = ''/site/build/assets''"
  "path_join ''/site/public/assets'' ''a.png'' = ''/site/public/assets/a.png''"
  "path_join ''/site/public/assets'' ''b.png'' = ''/site/public/assets/b.png''"
  "path_join ''/site/public/assets'' ''notes.txt'' = ''/site/public/assets/notes.txt''"
  by (simp_all add: path_join_def normalize_def)

lemma findPngFiles_example:
  "findPngFiles exampleFiles ''/site/public/assets''
     = Inr [''/site/public/assets/a.png'', ''/site/public/assets/b.png'']"
  by (simp add: findPngFiles_def fs_existsSync_def isFile_def exampleFiles_def path_join_site
      suffix_to_prefix)

lemma scannedFiles_example:
  "scannedFiles ''/site/'' ASSET_DIRS exampleFiles
     = [''/site/public/assets/a.png'', ''/site/public/assets/b.png'']"
proof -
  have "findPngFiles exampleFiles ''/site/src/assets'' = Inr []"
    and "findPngFiles exampleFiles ''/site/build/assets'' = Inr []"
    by (simp_all add: findPngFiles_def fs_existsSync_def exampleFiles_def)
  then show ?thesis
    by (simp add: scannedFiles_def ASSET_DIRS_def path_join_site findPngFiles_example)
qed

text \<open>
  C10, as stated, in a project whose first asset path holds a regular file: reading it as
  a directory throws, no handler catches the error, and the process ends with the exit
  code 1 before anything is counted.
\<close>

theorem main_exit_code_counterexample:
  "main decodesToPng ''/site/'' assetsFile
     = (assetsFile, \<lparr>totalProcessed = 0, totalSkipped = 0, totalErrors = 0\<rparr>,
        Uncaught ''ENOTDIR: not a directory'')
   \<and> exitCode (snd (snd (main decodesToPng ''/site/'' assetsFile))) = 1
   \<and> exitCode (snd (snd (main decodesToPng ''/site/'' assetsFile))) \<noteq> 0"
  by (simp add: main_def ASSET_DIRS_def path_join_site fs_existsSync_def findPngFiles_def
      assetsFile_def)

text \<open>
  C10, amended. The script exits with code 0 whenever its scan completes, and the scan
  completes exactly when no asset path holds a regular file; where one does, the error of
  reading it as a directory ends the process with code 1. When the scan completes, the
  three counters hold the numbers of the PNG files of the asset directories that were
  decoded, skipped and failed, each file processed in turn; the files of the scan being
  distinct, each is counted by what it holds before the scan. A file whose content decodes
  to bytes that are no PNG is a failure. An asset directory that is missing is skipped:
  with all of them missing the script exits with code 0, nothing counted and nothing
  changed.
\<close>

theorem main_exit_code:
  "((\<forall>dir\<in>set ASSET_DIRS. \<not> isFile files (path_join PROJECT_ROOT dir))
      \<longrightarrow> (\<exists>files'. main fromBase64 PROJECT_ROOT files
             = (files',
                tally (fileResults fromBase64 (scannedFiles PROJECT_ROOT ASSET_DIRS files) files),
                Exit 0)))
   \<and> ((\<exists>dir\<in>set ASSET_DIRS. isFile files (path_join PROJECT_ROOT dir))
      \<longrightarrow> (\<exists>files' c message. main fromBase64 PROJECT_ROOT files = (files', c, Uncaught message)))
   \<and> exitCode (snd (snd (main fromBase64 PROJECT_ROOT files)))
       = (if \<exists>dir\<in>set ASSET_DIRS. isFile files (path_join PROJECT_ROOT dir) then 1 else 0)
   \<and> (distinct (scannedFiles PROJECT_ROOT ASSET_DIRS files)
      \<longrightarrow> fileResults fromBase64 (scannedFiles PROJECT_ROOT ASSET_DIRS files) files
          = map (\<lambda>file. snd (processFile fromBase64 files file))
              (scannedFiles PROJECT_ROOT ASSET_DIRS files))
   \<and> (isBase64Encoded files file \<and> fs_readFileSync files file = Inr content
        \<and> decodeBase64ToBuffer fromBase64 content = Inr buffer
        \<and> take 8 buffer \<noteq> pngMagicBytes
      \<longrightarrow> failed (snd (processFile fromBase64 files file)))
   \<and> ((\<forall>dir\<in>set ASSET_DIRS. \<not> fs_existsSync files (path_join PROJECT_ROOT dir))
      \<longrightarrow> main fromBase64 PROJECT_ROOT files
            = (files, \<lparr>totalProcessed = 0, totalSkipped = 0, totalErrors = 0\<rparr>, Exit 0))"
proof (intro conjI impI)
  assume "\<forall>dir\<in>set ASSET_DIRS. \<not> isFile files (path_join PROJECT_ROOT dir)"
  then show "\<exists>files'. main fromBase64 PROJECT_ROOT files
             = (files',
                tally (fileResults fromBase64 (scannedFiles PROJECT_ROOT ASSET_DIRS files) files),
                Exit 0)"
    by (rule main_completes)
next
  assume "\<exists>dir\<in>set ASSET_DIRS. isFile files (path_join PROJECT_ROOT dir)"
  then show "\<exists>files' c message. main fromBase64 PROJECT_ROOT files = (files', c, Uncaught message)"
    by (rule main_uncaught)
next
  show "exitCode (snd (snd (main fromBase64 PROJECT_ROOT files)))
       = (if \<exists>dir\<in>set ASSET_DIRS. isFile files (path_join PROJECT_ROOT dir) then 1 else 0)"
  proof (cases "\<exists>dir\<in>set ASSET_DIRS. isFile files (path_join PROJECT_ROOT dir)")
    case True
    from main_uncaught[OF this, of fromBase64] obtain files' c message where
      "main fromBase64 PROJECT_ROOT files = (files', c, Uncaught message)"
      by blast
    with True show ?thesis
      by (simp only: snd_conv exitCode.simps if_True)
  next
    case False
    then have "\<forall>dir\<in>set ASSET_DIRS. \<not> isFile files (path_join PROJECT_ROOT dir)"
      by blast
    from main_completes[OF this, of fromBase64] obtain files' where
      "main fromBase64 PROJECT_ROOT files
         = (files',
            tally (fileResults fromBase64 (scannedFiles PROJECT_ROOT ASSET_DIRS files) files),
            Exit 0)"
      by blast
    with False show ?thesis
      by (simp only: snd_conv exitCode.simps if_False)
  qed
next
  assume "distinct (scannedFiles PROJECT_ROOT ASSET_DIRS files)"
  then show "fileResults fromBase64 (scannedFiles PROJECT_ROOT ASSET_DIRS files) files
          = map (\<lambda>file. snd (processFile fromBase64 files file))
              (scannedFiles PROJECT_ROOT ASSET_DIRS files)"
    by (rule fileResults_distinct) simp
next
  assume "isBase64Encoded files file \<and> fs_readFileSync files file = Inr content
        \<and> decodeBase64ToBuffer fromBase64 content = Inr buffer
        \<and> take 8 buffer \<noteq> pngMagicBytes"
  then show "failed (snd (processFile fromBase64 files file))"
    by (simp add: processFile_def)
next
  assume "\<forall>dir\<in>set ASSET_DIRS. \<not> fs_existsSync files (path_join PROJECT_ROOT dir)"
  from scanDirs_missing[OF this]
  show "main fromBase64 PROJECT_ROOT files
      = (files, \<lparr>totalProcessed = 0, totalSkipped = 0, totalErrors = 0\<rparr>, Exit 0)"
    by (simp add: main_def)
qed

theorem main_exit_code_witness:
  "main decodesToOther ''/site/'' exampleFiles
     = (exampleFiles, \<lparr>totalProcessed = 0, totalSkipped = 1, totalErrors = 1\<rparr>, Exit 0)
   \<and> (\<exists>files' c message. main decodesToOther ''/site/'' assetsFile = (files', c, Uncaught message))
   \<and> exitCode (snd (snd (main decodesToOther ''/site/'' exampleFiles))) = 0
   \<and> exitCode (snd (snd (main decodesToOther ''/site/'' assetsFile))) = 1
   \<and> fileResults decodesToOther (scannedFiles ''/site/'' ASSET_DIRS exampleFiles) exampleFiles
       = [NotProcessed ''Decoded content is not a valid PNG'', NotProcessed ''Not base64-encoded'']
   \<and> failed (snd (processFile decodesToOther exampleFiles ''/site/public/assets/a.png''))
   \<and> main decodesToOther ''/site/'' Map.empty
     = (Map.empty, \<lparr>totalProcessed = 0, totalSkipped = 0, totalErrors = 0\<rparr>, Exit 0)"
proof (intro conjI)
  let ?a = "''/site/public/assets/a.png''"
  let ?b = "''/site/public/assets/b.png''"
  note T = main_exit_code[of _ "''/site/''" decodesToOther]
  have pa: "processFile decodesToOther exampleFiles ?a
      = (exampleFiles, NotProcessed ''Decoded content is not a valid PNG'')"
    using example_a_base64
    by (simp add: processFile_def decodeBase64ToBuffer_def decodesToOther_def fs_readFileSync_def
        exampleFiles_def pngMagicBytes_def)
  have "\<not> isBase64Encoded exampleFiles ?b"
    by (rule binary_png_not_base64[of _ _ "pngMagicBytes @ ''IHDR''"])
       (simp_all add: exampleFiles_def pngMagicBytes_def)
  then have pb: "processFile decodesToOther exampleFiles ?b
      = (exampleFiles, NotProcessed ''Not base64-encoded'')"
    by (simp add: processFile_def)
  have dirs: "\<forall>dir\<in>set ASSET_DIRS. \<not> isFile exampleFiles (path_join ''/site/'' dir)"
    by (simp add: ASSET_DIRS_def path_join_site isFile_def exampleFiles_def)
  have broken: "\<exists>dir\<in>set ASSET_DIRS. isFile assetsFile (path_join ''/site/'' dir)"
    by (simp add: ASSET_DIRS_def path_join_site isFile_def assetsFile_def)
  have results: "fileResults decodesToOther (scannedFiles ''/site/'' ASSET_DIRS exampleFiles) exampleFiles
       = [NotProcessed ''Decoded content is not a valid PNG'', NotProcessed ''Not base64-encoded'']"
    using T[of exampleFiles, THEN conjunct2, THEN conjunct2, THEN conjunct2, THEN conjunct1]
    by (simp add: scannedFiles_example pa pb)
  from T[of exampleFiles, THEN conjunct1] dirs obtain files' where
    m: "main decodesToOther ''/site/'' exampleFiles
         = (files',
            tally (fileResults decodesToOther (scannedFiles ''/site/'' ASSET_DIRS exampleFiles) exampleFiles),
            Exit 0)"
    by blast
  have "fst (main decodesToOther ''/site/'' exampleFiles) = exampleFiles"
    by (simp add: main_def scanDirs_completes[OF dirs] scannedFiles_example pa pb
        split: prod.splits)
  with m show "main decodesToOther ''/site/'' exampleFiles
     = (exampleFiles, \<lparr>totalProcessed = 0, totalSkipped = 1, totalErrors = 1\<rparr>, Exit 0)"
    by (simp add: results tally_def)
  from T[of assetsFile, THEN conjunct2, THEN conjunct1] broken
  show "\<exists>files' c message. main decodesToOther ''/site/'' assetsFile = (files', c, Uncaught message)"
    by blast
  from T[of exampleFiles, THEN conjunct2, THEN conjunct2, THEN conjunct1] dirs
  show "exitCode (snd (snd (main decodesToOther ''/site/'' exampleFiles))) = 0"
    by simp
  from T[of assetsFile, THEN conjunct2, THEN conjunct2, THEN conjunct1] broken
  show "exitCode (snd (snd (main decodesToOther ''/site/'' assetsFile))) = 1"
    by simp
  from results
  show "fileResults decodesToOther (scannedFiles ''/site/'' ASSET_DIRS exampleFiles) exampleFiles
       = [NotProcessed ''Decoded content is not a valid PNG'', NotProcessed ''Not base64-encoded'']" .
  have r: "fs_readFileSync exampleFiles ?a = Inr ''iVBORw0KGgoAAAANSUhEUg==''"
    by (simp add: fs_readFileSync_def exampleFiles_def)
  have d: "decodeBase64ToBuffer decodesToOther ''iVBORw0KGgoAAAANSUhEUg=='' = Inr ''GIF89a''"
    by (simp add: decodeBase64ToBuffer_def decodesToOther_def)
  have n: "take 8 ''GIF89a'' \<noteq> pngMagicBytes"
    by (simp add: pngMagicBytes_def)
  from T[of exampleFiles ?a "''iVBORw0KGgoAAAANSUhEUg==''" "''GIF89a''",
      THEN conjunct2, THEN conjunct2, THEN conjunct2, THEN conjunct2, THEN conjunct1]
    example_a_base64 r d n
  show "failed (snd (processFile decodesToOther exampleFiles ?a))"
    by blast
  have "\<forall>dir\<in>set ASSET_DIRS. \<not> fs_existsSync Map.empty (path_join ''/site/'' dir)"
    by (simp add: fs_existsSync_def)
  with T[of Map.empty, THEN conjunct2, THEN conjunct2, THEN conjunct2, THEN conjunct2, THEN conjunct2]
  show "main decodesToOther ''/site/'' Map.empty
     = (Map.empty, \<lparr>totalProcessed = 0, totalSkipped = 0, totalErrors = 0\<rparr>, Exit 0)"
    by blast
qed

end
